theory Spec2Isabelle
  imports Complex_Main "HOL-Library.Word" "HOL-Library.Signed_Division" "HOL-Library.Log_Nat"
begin

section \<open>The clock discipliner of \<^verbatim>\<open>ncmv_projects/clock_discipliner/clock_discipliner.h\<close>\<close>

text \<open>
  The class \<^verbatim>\<open>clock_discipliner\<close> keeps three mutable fields and one constant, reads
  \<^verbatim>\<open>CLOCK_REALTIME\<close>, and writes it with \<^verbatim>\<open>clock_settime\<close> or \<^verbatim>\<open>clock_adjtime\<close>.
  The embedding is for the LP64 Linux target the header is written for: \<^verbatim>\<open>int64_t\<close>,
  \<^verbatim>\<open>time_t\<close> and \<^verbatim>\<open>long\<close> are 64-bit two's complement, \<^verbatim>\<open>double\<close> is IEEE 754
  binary64 with round-to-nearest-even, every operation rounded on its own.

  Signed overflow has no meaning in C++; the embedding gives it the wrap-around that the
  compiled arithmetic instructions have, so that every input has a result.
\<close>

subsection \<open>Machine integers\<close>

type_synonym int64 = "64 word"
type_synonym uint64 = "64 word"

text \<open>C++ \<^verbatim>\<open>/\<close> and \<^verbatim>\<open>%\<close> on signed operands truncate towards zero.\<close>

definition sdiv64 :: "int64 \<Rightarrow> int64 \<Rightarrow> int64" where
  "sdiv64 a b = word_of_int (sint a sdiv sint b)"

definition smod64 :: "int64 \<Rightarrow> int64 \<Rightarrow> int64" where
  "smod64 a b = word_of_int (sint a smod sint b)"

definition INT64_MIN :: int64 where
  "INT64_MIN = word_of_int (- (2 ^ 63))"

subsection \<open>Binary64 arithmetic\<close>

text \<open>
  A finite \<^verbatim>\<open>double\<close> is a pair \<open>(m, e)\<close> of a signed significand and an exponent, with
  value \<open>m * 2 ^ e\<close>. An exact result is rounded to 53 significant bits, to the nearest
  value, ties to the even significand: \<open>round_even n s\<close> is \<open>n / 2 ^ s\<close> rounded to an
  integer in this way, and \<open>rnd\<close> drops the bits beyond the 53rd of the magnitude.

  The numbers of this program are integers below \<open>2 ^ 64\<close> in magnitude, their products
  with the two constants and the sums of two such products, so that no operation
  overflows, underflows or yields a NaN; the exponent range is therefore left unbounded.
\<close>

type_synonym double = "int \<times> int"

definition valof :: "double \<Rightarrow> real" where
  "valof d = real_of_int (fst d) * 2 powi (snd d)"

definition bit_length :: "int \<Rightarrow> nat" where
  "bit_length m = floorlog 2 (nat \<bar>m\<bar>)"

definition round_even :: "int \<Rightarrow> nat \<Rightarrow> int" where
  "round_even n s =
     (let q = n div 2 ^ s; r = n mod 2 ^ s in
      if 2 * r < 2 ^ s \<or> (2 * r = 2 ^ s \<and> even q) then q else q + 1)"

definition rnd :: "double \<Rightarrow> double" where
  "rnd d =
     (let m = fst d; e = snd d; k = bit_length m in
      if k \<le> 53 then (m, e)
      else (sgn m * round_even \<bar>m\<bar> (k - 53), e + int (k - 53)))"

definition dmul :: "double \<Rightarrow> double \<Rightarrow> double" where
  "dmul a b = rnd (fst a * fst b, snd a + snd b)"

definition dadd :: "double \<Rightarrow> double \<Rightarrow> double" where
  "dadd a b =
     (let e = min (snd a) (snd b) in
      rnd (fst a * 2 ^ nat (snd a - e) + fst b * 2 ^ nat (snd b - e), e))"

definition dneg :: "double \<Rightarrow> double" where
  "dneg a = (- fst a, snd a)"

definition dsub :: "double \<Rightarrow> double \<Rightarrow> double" where
  "dsub a b = dadd a (dneg b)"

text \<open>The conversion of an \<^verbatim>\<open>int64_t\<close> operand to \<^verbatim>\<open>double\<close> rounds as well.\<close>

definition double_of_int64 :: "int64 \<Rightarrow> double" where
  "double_of_int64 x = rnd (sint x, 0)"

text \<open>The cast \<^verbatim>\<open>(int64_t)\<close> discards the fraction (truncation towards zero).\<close>

definition dtrunc :: "double \<Rightarrow> int" where
  "dtrunc d =
     (let m = fst d; e = snd d in
      if 0 \<le> e then m * 2 ^ nat e else sgn m * (\<bar>m\<bar> div 2 ^ nat (- e)))"

text \<open>
  The cast is defined when the truncated value is an \<^verbatim>\<open>int64_t\<close>. Outside that range
  C++ gives it no meaning; the x86-64 conversion instruction then delivers
  \<open>0x8000000000000000\<close>, which is what the embedding returns there.
\<close>

definition cast_defined :: "double \<Rightarrow> bool" where
  "cast_defined d = (- (2 ^ 63) \<le> dtrunc d \<and> dtrunc d < 2 ^ 63)"

definition int64_of_double :: "double \<Rightarrow> int64" where
  "int64_of_double d = (if cast_defined d then word_of_int (dtrunc d) else INT64_MIN)"

text \<open>The literals \<^verbatim>\<open>1.0\<close> and \<^verbatim>\<open>0.2\<close>; \<open>0.2\<close> is \<^verbatim>\<open>0x1.999999999999ap-3\<close>.\<close>

definition d_one :: double where
  "d_one = (1, 0)"

definition ewma_alpha :: double where
  "ewma_alpha = (3602879701896397, - 54)"

subsection \<open>State, clock and events\<close>

record timespec =
  tv_sec :: int64
  tv_nsec :: int64

record clock_discipliner =
  ewma_offset_ns :: int64
  sample_count :: int64
  last_discipline_sec :: int64

text \<open>The constructor.\<close>

definition clock_discipliner_ctor :: clock_discipliner where
  "clock_discipliner_ctor =
     \<lparr>ewma_offset_ns = 0, sample_count = 0, last_discipline_sec = 0\<rparr>"

text \<open>
  What the system does during one call of \<^verbatim>\<open>on_time_source_tick\<close>: the reading of
  \<^verbatim>\<open>clock_gettime\<close> at the start of the call, the second reading inside
  \<^verbatim>\<open>step_clock\<close>, and whether \<^verbatim>\<open>clock_settime\<close> and \<^verbatim>\<open>clock_adjtime\<close> return a
  non-negative value. Nothing relates the four: every behaviour of the system is covered.
\<close>

record clock_env =
  now :: timespec
  now_step :: timespec
  settime_ok :: bool
  adjtime_ok :: bool

text \<open>
  What one call does to the outside, in order: the line printed by
  \<^verbatim>\<open>discipline_if_needed\<close>, the two system calls with their argument, and the line
  printed after each (\<^verbatim>\<open>perror\<close> on failure, \<^verbatim>\<open>printf\<close> with the estimate otherwise).
\<close>

datatype event =
    Log_filtered int64
  | Clock_settime timespec
  | Log_step_failed
  | Log_stepped int64
  | Clock_adjtime int64
  | Log_slew_failed
  | Log_slewed int64

subsection \<open>The member functions\<close>

text \<open>
  The expression \<^verbatim>\<open>(1.0 - ewma_alpha) * ewma_offset_ns + ewma_alpha * offset_ns\<close>: both
  integers are converted, and the difference, the two products and the sum are rounded.
\<close>

definition ewma_blend :: "int64 \<Rightarrow> int64 \<Rightarrow> double" where
  "ewma_blend e offset_ns =
     dadd (dmul (dsub d_one ewma_alpha) (double_of_int64 e))
          (dmul ewma_alpha (double_of_int64 offset_ns))"

definition update_ewma :: "int64 \<Rightarrow> clock_discipliner \<Rightarrow> clock_discipliner" where
  "update_ewma offset_ns s =
     (let e = (if sample_count s = 0 then offset_ns
               else int64_of_double (ewma_blend (ewma_offset_ns s) offset_ns))
      in s\<lparr>ewma_offset_ns := e, sample_count := sample_count s + 1\<rparr>)"

definition step_clock :: "clock_env \<Rightarrow> clock_discipliner \<Rightarrow> event list \<times> clock_discipliner" where
  "step_clock w s =
     (let ts = now_step w;
          new_ns = tv_sec ts * 1000000000 + tv_nsec ts + ewma_offset_ns s;
          new_ts = \<lparr>tv_sec = sdiv64 new_ns 1000000000, tv_nsec = smod64 new_ns 1000000000\<rparr>
      in ([Clock_settime new_ts,
           if settime_ok w then Log_stepped (ewma_offset_ns s) else Log_step_failed],
          s\<lparr>ewma_offset_ns := 0\<rparr>))"

definition slew_clock :: "clock_env \<Rightarrow> clock_discipliner \<Rightarrow> event list \<times> clock_discipliner" where
  "slew_clock w s =
     ([Clock_adjtime (sdiv64 (ewma_offset_ns s) 1000),
       if adjtime_ok w then Log_slewed (ewma_offset_ns s) else Log_slew_failed],
      s)"

definition abs_offset_ns :: "clock_discipliner \<Rightarrow> int64" where
  "abs_offset_ns s =
     (if 0 \<le>s ewma_offset_ns s then ewma_offset_ns s else - ewma_offset_ns s)"

definition discipline_if_needed ::
  "clock_env \<Rightarrow> int64 \<Rightarrow> clock_discipliner \<Rightarrow> event list \<times> clock_discipliner" where
  "discipline_if_needed w current_sec s =
     (if current_sec = last_discipline_sec s then ([], s)
      else
        let s1 = s\<lparr>last_discipline_sec := current_sec\<rparr>;
            (evs, s2) = (if 3 * 1000000 <s abs_offset_ns s1 then step_clock w s1
                         else slew_clock w s1)
        in (Log_filtered (ewma_offset_ns s1) # evs, s2))"

text \<open>
  The raw offset of a tick. The local time in milliseconds is computed in
  \<^verbatim>\<open>unsigned long long\<close> (the division is the unsigned one), the difference and the
  product with \<open>1000000\<close> in \<^verbatim>\<open>int64_t\<close>.
\<close>

definition system_time_ms :: "timespec \<Rightarrow> uint64" where
  "system_time_ms ts = tv_sec ts * 1000 + tv_nsec ts div 1000000"

definition tick_offset_ms :: "timespec \<Rightarrow> uint64 \<Rightarrow> int64" where
  "tick_offset_ms ts time_source_ms = time_source_ms - system_time_ms ts"

definition tick_offset_ns :: "timespec \<Rightarrow> uint64 \<Rightarrow> int64" where
  "tick_offset_ns ts time_source_ms = tick_offset_ms ts time_source_ms * 1000000"

definition on_time_source_tick ::
  "clock_env \<Rightarrow> uint64 \<Rightarrow> clock_discipliner \<Rightarrow> event list \<times> clock_discipliner" where
  "on_time_source_tick w time_source_ms s =
     discipline_if_needed w (tv_sec (now w))
       (update_ewma (tick_offset_ns (now w) time_source_ms) s)"

subsection \<open>Sequences of calls\<close>

text \<open>
  A caller such as the loop of \<^verbatim>\<open>test.cpp\<close> delivers one tick after the other to the same
  object. \<open>decision_secs\<close> lists, in order, the local-clock seconds of the calls in which
  the discipline decision ran, that is, the calls that printed or wrote anything.
\<close>

fun decision_secs :: "(clock_env \<times> uint64) list \<Rightarrow> clock_discipliner \<Rightarrow> int64 list" where
  "decision_secs [] s = []"
| "decision_secs ((w, time_source_ms) # ticks) s =
     (let (evs, s1) = on_time_source_tick w time_source_ms s in
      (if evs = [] then [] else [tv_sec (now w)]) @ decision_secs ticks s1)"

text \<open>The state after the calls.\<close>

fun run_ticks :: "(clock_env \<times> uint64) list \<Rightarrow> clock_discipliner \<Rightarrow> clock_discipliner" where
  "run_ticks [] s = s"
| "run_ticks ((w, time_source_ms) # ticks) s =
     run_ticks ticks (snd (on_time_source_tick w time_source_ms s))"

text \<open>
  The product of the millisecond offset with \<open>1000000\<close> leaves the range of
  \<^verbatim>\<open>int64_t\<close>.
\<close>

definition ns_conversion_overflows :: "timespec \<Rightarrow> uint64 \<Rightarrow> bool" where
  "ns_conversion_overflows ts time_source_ms =
     (sint (tick_offset_ms ts time_source_ms) * 1000000 < - (2 ^ 63)
      \<or> 2 ^ 63 \<le> sint (tick_offset_ms ts time_source_ms) * 1000000)"

section \<open>Properties\<close>

subsection \<open>The branches of the discipline decision\<close>

lemma sint_uminus64:
  fixes x :: int64
  assumes "x \<noteq> INT64_MIN"
  shows "sint (- x) = - sint x"
proof -
  have "sint x \<noteq> - (2 ^ 63)"
  proof
    assume "sint x = - (2 ^ 63)"
    then have "word_of_int (sint x) = (word_of_int (- (2 ^ 63)) :: int64)" by simp
    then show False using assms by (simp add: INT64_MIN_def)
  qed
  moreover have "- (2 ^ 63) \<le> sint x" "sint x < 2 ^ 63"
    using sint_ge [of x] sint_lt [of x] by simp_all
  ultimately have "- (2 ^ 63) \<le> - sint x" "- sint x < 2 ^ 63" by linarith+
  then show ?thesis
    by (simp add: sint_word_ariths signed_take_bit_int_eq_self)
qed

lemma sint_abs_offset_ns:
  assumes "ewma_offset_ns s \<noteq> INT64_MIN"
  shows "sint (abs_offset_ns s) = \<bar>sint (ewma_offset_ns s)\<bar>"
  using assms by (simp add: abs_offset_ns_def word_sle_eq sint_uminus64)

lemma step_branch_iff:
  assumes "ewma_offset_ns s \<noteq> INT64_MIN"
  shows "3 * 1000000 <s abs_offset_ns s \<longleftrightarrow> 3000000 < \<bar>sint (ewma_offset_ns s)\<bar>"
  using sint_abs_offset_ns [OF assms] by (simp add: word_sless_alt)

lemma settime_in_step: "\<exists>t. Clock_settime t \<in> set (fst (step_clock w s))"
  by (simp add: step_clock_def Let_def)

lemma adjtime_notin_step: "Clock_adjtime u \<notin> set (fst (step_clock w s))"
  by (simp add: step_clock_def Let_def)

lemma adjtime_in_slew: "\<exists>u. Clock_adjtime u \<in> set (fst (slew_clock w s))"
  by (simp add: slew_clock_def)

lemma settime_notin_slew: "Clock_settime t \<notin> set (fst (slew_clock w s))"
  by (simp add: slew_clock_def)

lemma snd_step_clock: "snd (step_clock w s) = s\<lparr>ewma_offset_ns := 0\<rparr>"
  by (simp add: step_clock_def Let_def)

lemma snd_slew_clock: "snd (slew_clock w s) = s"
  by (simp add: slew_clock_def)

lemma abs_offset_ns_last [simp]:
  "abs_offset_ns (s\<lparr>last_discipline_sec := c\<rparr>) = abs_offset_ns s"
  by (simp add: abs_offset_ns_def)

lemma discipline_skip:
  "c = last_discipline_sec s \<Longrightarrow> discipline_if_needed w c s = ([], s)"
  by (simp add: discipline_if_needed_def)

lemma discipline_step:
  assumes "c \<noteq> last_discipline_sec s" "3 * 1000000 <s abs_offset_ns s"
  shows "discipline_if_needed w c s =
    (Log_filtered (ewma_offset_ns s) # fst (step_clock w (s\<lparr>last_discipline_sec := c\<rparr>)),
     s\<lparr>last_discipline_sec := c, ewma_offset_ns := 0\<rparr>)"
  using assms by (simp add: discipline_if_needed_def step_clock_def Let_def)

lemma discipline_slew:
  assumes "c \<noteq> last_discipline_sec s" "\<not> 3 * 1000000 <s abs_offset_ns s"
  shows "discipline_if_needed w c s =
    (Log_filtered (ewma_offset_ns s) # fst (slew_clock w (s\<lparr>last_discipline_sec := c\<rparr>)),
     s\<lparr>last_discipline_sec := c\<rparr>)"
  using assms by (simp add: discipline_if_needed_def slew_clock_def Let_def)

lemma discipline_decides:
  assumes "c \<noteq> last_discipline_sec s"
  shows "\<exists>evs. fst (discipline_if_needed w c s) = Log_filtered (ewma_offset_ns s) # evs
           \<and> ((\<exists>t. Clock_settime t \<in> set evs) \<or> (\<exists>u. Clock_adjtime u \<in> set evs))"
proof (cases "3 * 1000000 <s abs_offset_ns s")
  case True
  show ?thesis
    unfolding discipline_step [OF assms True] using settime_in_step by simp
next
  case False
  show ?thesis
    unfolding discipline_slew [OF assms False] using adjtime_in_slew by simp
qed

lemma discipline_last:
  "last_discipline_sec (snd (discipline_if_needed w c s)) = c"
proof (cases "c = last_discipline_sec s")
  case True
  then show ?thesis by (simp add: discipline_skip)
next
  case False
  then show ?thesis
    by (cases "3 * 1000000 <s abs_offset_ns s") (simp_all add: discipline_step discipline_slew)
qed

subsection \<open>One call and sequences of calls\<close>

lemma update_ewma_last [simp]:
  "last_discipline_sec (update_ewma x s) = last_discipline_sec s"
  by (simp add: update_ewma_def Let_def)

lemma update_ewma_count [simp]:
  "sample_count (update_ewma x s) = sample_count s + 1"
  by (simp add: update_ewma_def Let_def)

lemma tick_skip:
  assumes "tv_sec (now w) = last_discipline_sec s"
  shows "on_time_source_tick w src s = ([], update_ewma (tick_offset_ns (now w) src) s)"
  using assms by (simp add: on_time_source_tick_def discipline_skip)

lemma tick_last:
  "last_discipline_sec (snd (on_time_source_tick w src s)) = tv_sec (now w)"
  by (simp add: on_time_source_tick_def discipline_last)

lemma tick_events_empty_iff:
  "fst (on_time_source_tick w src s) = [] \<longleftrightarrow> tv_sec (now w) = last_discipline_sec s"
proof (cases "tv_sec (now w) = last_discipline_sec s")
  case True
  then show ?thesis by (simp add: tick_skip)
next
  case False
  then have "tv_sec (now w) \<noteq> last_discipline_sec (update_ewma (tick_offset_ns (now w) src) s)"
    by simp
  from discipline_decides [OF this, of w] show ?thesis
    using False by (auto simp: on_time_source_tick_def)
qed

lemma decision_secs_Cons:
  "decision_secs ((w, src) # ticks) s =
     (if tv_sec (now w) = last_discipline_sec s then [] else [tv_sec (now w)])
       @ decision_secs ticks (snd (on_time_source_tick w src s))"
  using tick_events_empty_iff [of w src s]
  by (simp add: case_prod_unfold)

declare decision_secs.simps(2) [simp del]



lemma run_ticks_append_one:
  "run_ticks (ticks @ [(w, time_source_ms)]) s
     = snd (on_time_source_tick w time_source_ms (run_ticks ticks s))"
  by (induction ticks arbitrary: s) auto

text \<open>
  Unfolding everything evaluates a call on concrete arguments.
\<close>

lemmas tick_eval = on_time_source_tick_def discipline_if_needed_def update_ewma_def
  tick_offset_ns_def tick_offset_ms_def system_time_ms_def abs_offset_ns_def step_clock_def slew_clock_def sdiv64_def smod64_def
  clock_discipliner_ctor_def Let_def word_sless_alt word_sle_eq signed_divide_int_def
  signed_modulo_int_def INT64_MIN_def

subsection \<open>Rounding to 53 bits\<close>

lemma bit_length_le_iff: "bit_length m \<le> k \<longleftrightarrow> \<bar>m\<bar> < 2 ^ k"
proof -
  have "bit_length m \<le> k \<longleftrightarrow> nat \<bar>m\<bar> < 2 ^ k"
    by (simp add: bit_length_def floorlog_le_iff)
  also have "\<dots> \<longleftrightarrow> \<bar>m\<bar> < 2 ^ k"
    by (simp add: nat_less_iff)
  finally show ?thesis .
qed

lemma bit_length_gt_imp: "k < bit_length m \<Longrightarrow> 2 ^ k \<le> \<bar>m\<bar>"
  using bit_length_le_iff [of m k] by simp

lemma round_even_cases:
  "round_even n s = n div 2 ^ s \<or> round_even n s = n div 2 ^ s + 1"
  by (simp add: round_even_def Let_def)

lemma round_even_err:
  "\<bar>round_even n s * 2 ^ s - n\<bar> \<le> n mod 2 ^ s
   \<and> \<bar>round_even n s * 2 ^ s - n\<bar> \<le> 2 ^ s - n mod 2 ^ s"
proof -
  define q where "q = n div 2 ^ s"
  define r where "r = n mod 2 ^ s"
  have n: "n = q * 2 ^ s + r"
    using div_mult_mod_eq [of n "2 ^ s"] by (simp add: q_def r_def)
  have r: "0 \<le> r" "r < 2 ^ s" by (simp_all add: r_def)
  show ?thesis
  proof (cases "2 * r < 2 ^ s \<or> (2 * r = 2 ^ s \<and> even q)")
    case True
    then have "round_even n s = q" by (simp add: round_even_def Let_def q_def r_def)
    then have "round_even n s * 2 ^ s - n = - r" using n by simp
    then show ?thesis using r True unfolding r_def [symmetric] by auto
  next
    case False
    then have "round_even n s = q + 1" by (simp add: round_even_def Let_def q_def r_def)
    then have "round_even n s * 2 ^ s - n = 2 ^ s - r" using n by (simp add: algebra_simps)
    then show ?thesis using r False unfolding r_def [symmetric] by auto
  qed
qed

lemma round_even_half: "2 * \<bar>round_even n s * 2 ^ s - n\<bar> \<le> 2 ^ s"
proof -
  define a where "a = \<bar>round_even n s * 2 ^ s - n\<bar>"
  define r where "r = n mod 2 ^ s"
  define p where "p = (2 :: int) ^ s"
  have "a \<le> r" and "a \<le> p - r"
    using round_even_err [of n s] by (simp_all add: a_def r_def p_def)
  then have "2 * a \<le> p" by linarith
  then show ?thesis by (simp add: a_def p_def)
qed

lemma round_even_nearest: "\<bar>round_even n s * 2 ^ s - n\<bar> \<le> \<bar>j * 2 ^ s - n\<bar>"
proof -
  define q where "q = n div 2 ^ s"
  define r where "r = n mod 2 ^ s"
  have n: "n = q * 2 ^ s + r"
    using div_mult_mod_eq [of n "2 ^ s"] by (simp add: q_def r_def)
  have r: "0 \<le> r" "r < 2 ^ s" by (simp_all add: r_def)
  have e: "\<bar>round_even n s * 2 ^ s - n\<bar> \<le> r" "\<bar>round_even n s * 2 ^ s - n\<bar> \<le> 2 ^ s - r"
    using round_even_err [of n s] by (simp_all add: r_def)
  show ?thesis
  proof (cases "j \<le> q")
    case True
    then have "j * 2 ^ s \<le> q * 2 ^ s" by (simp add: mult_right_mono)
    then have "r \<le> \<bar>j * 2 ^ s - n\<bar>" using n r by linarith
    then show ?thesis using e by linarith
  next
    case False
    then have "q + 1 \<le> j" by simp
    then have "(q + 1) * 2 ^ s \<le> j * 2 ^ s" by (intro mult_right_mono) simp_all
    then have "2 ^ s - r \<le> \<bar>j * 2 ^ s - n\<bar>" using n r by (simp add: algebra_simps)
    then show ?thesis using e by linarith
  qed
qed

lemma round_even_lower:
  assumes "2 ^ (52 + s) \<le> n"
  shows "2 ^ 52 \<le> round_even n s"
proof -
  have "(2 :: int) ^ (52 + s) div 2 ^ s \<le> n div 2 ^ s"
    using assms by (rule zdiv_mono1) simp
  then have "2 ^ 52 \<le> n div 2 ^ s" by (simp add: power_add)
  then show ?thesis using round_even_cases [of n s] by auto
qed

lemma round_even_upper:
  assumes "n < 2 ^ (53 + s)"
  shows "round_even n s \<le> 2 ^ 53"
proof -
  have "0 \<le> n mod 2 ^ s" by simp
  then have "n div 2 ^ s * 2 ^ s \<le> n div 2 ^ s * 2 ^ s + n mod 2 ^ s" by linarith
  then have "n div 2 ^ s * 2 ^ s \<le> n" by (simp only: div_mult_mod_eq)
  also have "n < 2 ^ 53 * 2 ^ s" using assms by (simp only: power_add)
  finally have "n div 2 ^ s * 2 ^ s < 2 ^ 53 * 2 ^ s" .
  then have "n div 2 ^ s < 2 ^ 53"
    by (simp only: mult_less_cancel_right_pos [OF zero_less_power [OF zero_less_numeral]])
  then show ?thesis using round_even_cases [of n s] by auto
qed

lemma rnd_small: "bit_length (fst d) \<le> 53 \<Longrightarrow> rnd d = d"
  by (simp add: rnd_def Let_def)

lemma two_powi_add: "(2 :: real) powi (e + int s) = 2 powi e * 2 ^ s"
  by (simp add: power_int_add)

lemma valof_rnd_large:
  assumes "53 < bit_length m"
  shows "valof (rnd (m, e)) =
    of_int (sgn m) * of_int (round_even \<bar>m\<bar> (bit_length m - 53) * 2 ^ (bit_length m - 53)) * 2 powi e"
proof -
  define s where "s = bit_length m - 53"
  have "rnd (m, e) = (sgn m * round_even \<bar>m\<bar> s, e + int s)"
    using assms by (simp add: rnd_def Let_def s_def)
  then have "valof (rnd (m, e)) = of_int (sgn m * round_even \<bar>m\<bar> s) * (2 powi e * 2 ^ s)"
    by (simp only: valof_def fst_conv snd_conv two_powi_add)
  then show ?thesis by (simp add: s_def)
qed

lemma valof_sgn_abs: "valof (m, e) = of_int (sgn m) * of_int \<bar>m\<bar> * 2 powi e"
proof -
  have "m = sgn m * \<bar>m\<bar>" by (simp add: sgn_mult_abs)
  then have "real_of_int m = of_int (sgn m) * of_int \<bar>m\<bar>"
    by (metis of_int_mult)
  then show ?thesis by (simp add: valof_def)
qed

text \<open>The difference between a rounded value and the exact one, for a long significand.\<close>

lemma rnd_diff_large:
  assumes "53 < bit_length m"
  shows "\<bar>valof (rnd (m, e)) - valof (m, e)\<bar> =
    of_int \<bar>round_even \<bar>m\<bar> (bit_length m - 53) * 2 ^ (bit_length m - 53) - \<bar>m\<bar>\<bar> * 2 powi e"
proof -
  define s where "s = bit_length m - 53"
  define q' where "q' = round_even \<bar>m\<bar> s"
  have "m \<noteq> 0" using assms bit_length_le_iff [of m 53] by auto
  then have sg: "\<bar>real_of_int (sgn m)\<bar> = 1" by (simp add: sgn_if)
  have "valof (rnd (m, e)) - valof (m, e)
      = of_int (sgn m) * (of_int (q' * 2 ^ s - \<bar>m\<bar>) * 2 powi e)"
    unfolding valof_rnd_large [OF assms] valof_sgn_abs [of m e] s_def q'_def
    by (simp add: algebra_simps)
  then have "\<bar>valof (rnd (m, e)) - valof (m, e)\<bar>
      = \<bar>real_of_int (sgn m)\<bar> * \<bar>of_int (q' * 2 ^ s - \<bar>m\<bar>) * 2 powi e\<bar>"
    by (simp only: abs_mult)
  also have "\<dots> = of_int \<bar>q' * 2 ^ s - \<bar>m\<bar>\<bar> * 2 powi e"
    by (simp add: sg abs_mult)
  finally show ?thesis by (simp add: s_def q'_def)
qed

lemma abs_valof: "\<bar>valof (m, e)\<bar> = of_int \<bar>m\<bar> * 2 powi e"
  by (simp add: valof_def abs_mult)

text \<open>Rounding changes a value by at most \<open>2 ^ - 53\<close> of its magnitude.\<close>

lemma rnd_rel_err: "\<bar>valof (rnd d) - valof d\<bar> \<le> \<bar>valof d\<bar> / 2 ^ 53"
proof (cases "bit_length (fst d) \<le> 53")
  case True
  then show ?thesis by (simp add: rnd_small)
next
  case False
  obtain m e where d: "d = (m, e)" by (cases d)
  have large: "53 < bit_length m" using False d by simp
  define s where "s = bit_length m - 53"
  define n where "n = \<bar>m\<bar>"
  define a where "a = \<bar>round_even n s * 2 ^ s - n\<bar>"
  have "52 + s < bit_length m" using large by (simp add: s_def)
  then have n_lower: "2 ^ (52 + s) \<le> n" unfolding n_def by (rule bit_length_gt_imp)
  have "2 * a \<le> 2 ^ s" unfolding a_def by (rule round_even_half)
  then have "2 ^ 52 * (2 * a) \<le> 2 ^ 52 * 2 ^ s" by (rule mult_left_mono) simp
  also have "\<dots> \<le> n" using n_lower by (simp add: power_add)
  finally have "2 ^ 53 * a \<le> n" by simp
  then have "real_of_int (2 ^ 53 * a) \<le> real_of_int n" by (rule of_int_le_iff [THEN iffD2])
  then have "real_of_int a \<le> real_of_int n / 2 ^ 53" by (simp add: field_simps)
  then have "real_of_int a * 2 powi e \<le> real_of_int n / 2 ^ 53 * 2 powi e"
    by (rule mult_right_mono) simp
  then show ?thesis
    unfolding d rnd_diff_large [OF large] abs_valof a_def n_def s_def by simp
qed

text \<open>The rounded value is at least as close to the exact one as any 53-bit value.\<close>

lemma rnd_nearest:
  assumes m': "\<bar>m'\<bar> < 2 ^ 53"
  shows "\<bar>valof (rnd d) - valof d\<bar> \<le> \<bar>valof (m', e') - valof d\<bar>"
proof (cases "bit_length (fst d) \<le> 53")
  case True
  then show ?thesis by (simp add: rnd_small)
next
  case False
  obtain m e where d: "d = (m, e)" by (cases d)
  have large: "53 < bit_length m" using False d by simp
  define s where "s = bit_length m - 53"
  define n where "n = \<bar>m\<bar>"
  define q' where "q' = round_even n s"
  define P where "P = (2 :: real) powi e"
  define \<sigma> where "\<sigma> = sgn m"
  have P: "0 < P" by (simp add: P_def)
  have "m \<noteq> 0" using large bit_length_le_iff [of m 53] by auto
  then have \<sigma>: "\<sigma> * \<sigma> = 1" "\<bar>real_of_int \<sigma>\<bar> = 1" by (simp_all add: \<sigma>_def sgn_if)
  have lhs: "\<bar>valof (rnd d) - valof d\<bar> = of_int \<bar>q' * 2 ^ s - n\<bar> * P"
    unfolding d rnd_diff_large [OF large] by (simp add: q'_def s_def n_def P_def)
  have vd: "valof d = of_int \<sigma> * of_int n * P"
    unfolding d valof_sgn_abs [of m e] by (simp add: \<sigma>_def n_def P_def)
  have "52 + s < bit_length m" using large by (simp add: s_def)
  then have n_lower: "2 ^ (52 + s) \<le> n" unfolding n_def by (rule bit_length_gt_imp)
  show ?thesis
  proof (cases "int s \<le> e' - e")
    case True
    define t where "t = nat (e' - e - int s)"
    define J where "J = m' * 2 ^ t"
    have "e' = e + int s + int t" using True by (simp add: t_def)
    then have "(2 :: real) powi e' = P * 2 ^ s * 2 ^ t"
      by (simp only: two_powi_add P_def)
    then have vy: "valof (m', e') = of_int (J * 2 ^ s) * P"
      by (simp add: valof_def J_def)
    have "valof (m', e') - valof d = of_int \<sigma> * (of_int (\<sigma> * J * 2 ^ s - n) * P)"
    proof -
      have "of_int \<sigma> * (of_int (\<sigma> * J * 2 ^ s - n) * P)
          = real_of_int (\<sigma> * \<sigma>) * of_int (J * 2 ^ s) * P - of_int \<sigma> * of_int n * P"
        by (simp add: algebra_simps)
      then show ?thesis by (simp add: \<sigma>(1) vy vd)
    qed
    then have "\<bar>valof (m', e') - valof d\<bar>
        = \<bar>real_of_int \<sigma>\<bar> * \<bar>of_int (\<sigma> * J * 2 ^ s - n) * P\<bar>"
      by (simp only: abs_mult)
    also have "\<dots> = of_int \<bar>(\<sigma> * J) * 2 ^ s - n\<bar> * P"
      using P by (simp add: \<sigma>(2) abs_mult)
    finally have rhs: "\<bar>valof (m', e') - valof d\<bar> = of_int \<bar>(\<sigma> * J) * 2 ^ s - n\<bar> * P" .
    have "\<bar>q' * 2 ^ s - n\<bar> \<le> \<bar>(\<sigma> * J) * 2 ^ s - n\<bar>"
      unfolding q'_def by (rule round_even_nearest)
    then have "real_of_int \<bar>q' * 2 ^ s - n\<bar> \<le> of_int \<bar>(\<sigma> * J) * 2 ^ s - n\<bar>"
      by (rule of_int_le_iff [THEN iffD2])
    then show ?thesis unfolding lhs rhs using P by (simp add: mult_right_mono)
  next
    case False
    then have "e' \<le> e + int s - 1" by simp
    then have "(2 :: real) powi e' \<le> 2 powi (e + int s - 1)"
      by (intro power_int_increasing) simp_all
    also have "\<dots> = P * 2 ^ s / 2"
      by (simp add: power_int_diff two_powi_add P_def)
    finally have pe: "(2 :: real) powi e' \<le> P * 2 ^ s / 2" .
    have "real_of_int \<bar>m'\<bar> < 2 ^ 53" using m' by (metis of_int_less_iff of_int_numeral of_int_power)
    then have "real_of_int \<bar>m'\<bar> * 2 powi e' < 2 ^ 53 * 2 powi e'"
      by (intro mult_strict_right_mono) simp_all
    also have "\<dots> \<le> 2 ^ 53 * (P * 2 ^ s / 2)"
      using pe by (intro mult_left_mono) simp_all
    also have "\<dots> = 2 ^ (52 + s) * P" by (simp add: power_add)
    finally have y: "\<bar>valof (m', e')\<bar> < 2 ^ (52 + s) * P" by (simp add: abs_valof)
    have "\<bar>q' * 2 ^ s - n\<bar> \<le> n mod 2 ^ s"
      using round_even_err [of n s] by (simp add: q'_def)
    also have "\<dots> = n - n div 2 ^ s * 2 ^ s"
      by (simp add: minus_div_mult_eq_mod)
    also have "\<dots> \<le> n - 2 ^ 52 * 2 ^ s"
    proof -
      have "(2 :: int) ^ (52 + s) div 2 ^ s \<le> n div 2 ^ s"
        using n_lower by (rule zdiv_mono1) simp
      then have "2 ^ 52 \<le> n div 2 ^ s" by (simp add: power_add)
      then have "2 ^ 52 * 2 ^ s \<le> n div 2 ^ s * 2 ^ s" by (intro mult_right_mono) simp_all
      then show ?thesis by linarith
    qed
    finally have "\<bar>q' * 2 ^ s - n\<bar> \<le> n - 2 ^ (52 + s)" by (simp add: power_add)
    then have "real_of_int \<bar>q' * 2 ^ s - n\<bar> \<le> real_of_int (n - 2 ^ (52 + s))"
      by (rule of_int_le_iff [THEN iffD2])
    then have "real_of_int \<bar>q' * 2 ^ s - n\<bar> * P \<le> real_of_int (n - 2 ^ (52 + s)) * P"
      using P by (intro mult_right_mono) simp_all
    also have "\<dots> = of_int n * P - 2 ^ (52 + s) * P" by (simp add: algebra_simps)
    also have "\<dots> \<le> \<bar>valof d\<bar> - \<bar>valof (m', e')\<bar>"
    proof -
      have "\<bar>valof d\<bar> = of_int n * P" unfolding d abs_valof by (simp add: n_def P_def)
      then show ?thesis using y by simp
    qed
    also have "\<dots> \<le> \<bar>valof (m', e') - valof d\<bar>" by linarith
    finally show ?thesis unfolding lhs .
  qed
qed

text \<open>A rounded value has a significand of 53 bits.\<close>

lemma rnd_representable: "\<exists>m' e'. \<bar>m'\<bar> < 2 ^ 53 \<and> valof (rnd d) = valof (m', e')"
proof (cases "bit_length (fst d) \<le> 53")
  case True
  then have "\<bar>fst d\<bar> < 2 ^ 53" by (simp add: bit_length_le_iff)
  moreover have "valof (rnd d) = valof (fst d, snd d)" using True by (simp add: rnd_small)
  ultimately show ?thesis by blast
next
  case False
  obtain m e where d: "d = (m, e)" by (cases d)
  have large: "53 < bit_length m" using False d by simp
  define s where "s = bit_length m - 53"
  define q' where "q' = round_even \<bar>m\<bar> s"
  have "m \<noteq> 0" using large bit_length_le_iff [of m 53] by auto
  then have sg: "\<bar>sgn m\<bar> = 1" by (simp add: sgn_if)
  have v: "valof (rnd d) = of_int (sgn m) * of_int (q' * 2 ^ s) * 2 powi e"
    unfolding d valof_rnd_large [OF large] by (simp add: q'_def s_def)
  have "52 + s < bit_length m" using large by (simp add: s_def)
  then have "2 ^ (52 + s) \<le> \<bar>m\<bar>" by (rule bit_length_gt_imp)
  then have lo: "2 ^ 52 \<le> q'" unfolding q'_def by (rule round_even_lower)
  have "bit_length m \<le> 53 + s" using large by (simp add: s_def)
  then have "\<bar>m\<bar> < 2 ^ (53 + s)" by (simp add: bit_length_le_iff)
  then have hi: "q' \<le> 2 ^ 53" unfolding q'_def by (rule round_even_upper)
  show ?thesis
  proof (cases "q' = 2 ^ 53")
    case True
    have "valof (sgn m * 2 ^ 52, e + int (s + 1))
        = of_int (sgn m) * of_int (q' * 2 ^ s) * 2 powi e"
      unfolding valof_def fst_conv snd_conv two_powi_add by (simp add: True)
    then have "valof (rnd d) = valof (sgn m * 2 ^ 52, e + int (s + 1))"
      using v by simp
    moreover have "\<bar>sgn m * 2 ^ 52\<bar> < 2 ^ 53" by (simp add: abs_mult sg)
    ultimately show ?thesis by blast
  next
    case False
    have "valof (sgn m * q', e + int s) = of_int (sgn m) * of_int (q' * 2 ^ s) * 2 powi e"
      unfolding valof_def fst_conv snd_conv two_powi_add by simp
    then have "valof (rnd d) = valof (sgn m * q', e + int s)"
      using v by simp
    moreover have "\<bar>sgn m * q'\<bar> < 2 ^ 53" using False hi lo by (simp add: abs_mult sg)
    ultimately show ?thesis by blast
  qed
qed

text \<open>From \<open>2 ^ k\<close> on, the values with a 53-bit significand are multiples of \<open>2 ^ (k - 52)\<close>.\<close>

lemma representable_grid:
  assumes m': "\<bar>m'\<bar> < 2 ^ 53" and ge: "2 ^ k \<le> valof (m', e')"
  shows "\<exists>j :: int. valof (m', e') = of_int j * 2 powi (int k - 52)"
proof -
  have "real_of_int m' < 2 ^ 53"
    using m' by (metis abs_less_iff of_int_less_iff of_int_numeral of_int_power)
  then have "valof (m', e') < 2 ^ 53 * 2 powi e'"
    unfolding valof_def fst_conv snd_conv by (intro mult_strict_right_mono) simp_all
  then have "(2 :: real) ^ k < 2 ^ 53 * 2 powi e'" using ge by linarith
  also have "\<dots> = 2 powi (e' + 53)" by (simp add: power_int_add)
  finally have "(2 :: real) powi (int k) < 2 powi (e' + 53)" by simp
  then have "int k < e' + 53"
    by (metis not_less one_le_numeral power_int_increasing)
  then have ex: "e' = (int k - 52) + int (nat (e' - int k + 52))" by simp
  have "(2 :: real) powi e' = 2 powi (int k - 52) * 2 ^ nat (e' - int k + 52)"
    by (subst ex) (rule two_powi_add)
  then have "valof (m', e') = of_int (m' * 2 ^ nat (e' - int k + 52)) * 2 powi (int k - 52)"
    by (simp add: valof_def)
  then show ?thesis by blast
qed

text \<open>The operations round the exact result.\<close>

lemma valof_dmul_exact: "valof (fst a * fst b, snd a + snd b) = valof a * valof b"
  by (simp add: valof_def power_int_add)

lemma valof_dadd_exact:
  assumes "e = min (snd a) (snd b)"
  shows "valof (fst a * 2 ^ nat (snd a - e) + fst b * 2 ^ nat (snd b - e), e) = valof a + valof b"
proof -
  have "snd a = e + int (nat (snd a - e))" "snd b = e + int (nat (snd b - e))"
    using assms by simp_all
  then have "(2 :: real) powi snd a = 2 powi e * 2 ^ nat (snd a - e)"
    and "(2 :: real) powi snd b = 2 powi e * 2 ^ nat (snd b - e)"
    by (metis two_powi_add)+
  then show ?thesis by (simp add: valof_def algebra_simps)
qed

lemma dmul_rnd: "\<exists>x. dmul a b = rnd x \<and> valof x = valof a * valof b"
  unfolding dmul_def using valof_dmul_exact by blast

lemma dadd_rnd: "\<exists>x. dadd a b = rnd x \<and> valof x = valof a + valof b"
  unfolding dadd_def Let_def using valof_dadd_exact [OF refl] by blast

text \<open>The cast to an integer.\<close>

lemma dtrunc_nonneg:
  assumes "0 \<le> valof d"
  shows "dtrunc d = \<lfloor>valof d\<rfloor>"
proof -
  obtain m e where d: "d = (m, e)" by (cases d)
  have nn: "0 \<le> real_of_int m * 2 powi e" using assms by (simp add: d valof_def)
  have m: "0 \<le> m"
  proof (rule ccontr)
    assume "\<not> 0 \<le> m"
    then have "real_of_int m < 0" by simp
    then have "real_of_int m * 2 powi e < 0" by (rule mult_neg_pos) simp
    then show False using nn by simp
  qed
  show ?thesis
  proof (cases "0 \<le> e")
    case True
    then have "(2 :: real) powi e = 2 ^ nat e" by (simp add: power_int_def)
    then have "valof d = of_int (m * 2 ^ nat e)" by (simp add: d valof_def)
    then have "\<lfloor>valof d\<rfloor> = m * 2 ^ nat e" by (simp only: floor_of_int)
    then show ?thesis using True by (simp add: d dtrunc_def)
  next
    case False
    then have "(2 :: real) powi e = 1 / 2 ^ nat (- e)" by (simp add: power_int_def field_simps)
    then have "valof d = of_int m / of_int (2 ^ nat (- e))" by (simp add: d valof_def)
    then have "\<lfloor>valof d\<rfloor> = m div 2 ^ nat (- e)" by (simp only: floor_divide_of_int_eq)
    moreover have "sgn m * (\<bar>m\<bar> div 2 ^ nat (- e)) = m div 2 ^ nat (- e)"
      using m by (cases "m = 0") (simp_all add: sgn_if)
    ultimately show ?thesis using False by (simp add: d dtrunc_def Let_def)
  qed
qed

lemma dtrunc_dneg: "dtrunc (dneg d) = - dtrunc d"
  by (simp add: dtrunc_def dneg_def Let_def sgn_minus)

lemma valof_dneg: "valof (dneg d) = - valof d"
  by (simp add: valof_def dneg_def)

lemma rnd_dneg: "rnd (dneg d) = dneg (rnd d)"
  by (simp add: rnd_def dneg_def Let_def bit_length_def sgn_minus)

lemma dmul_dneg: "dmul a (dneg b) = dneg (dmul a b)"
proof -
  have "(fst a * - fst b, snd a + snd b) = dneg (fst a * fst b, snd a + snd b)"
    by (simp add: dneg_def)
  then show ?thesis by (simp add: dmul_def dneg_def [of b] rnd_dneg)
qed

lemma dadd_dneg: "dadd (dneg a) (dneg b) = dneg (dadd a b)"
proof -
  have "snd (dneg a) = snd a" "snd (dneg b) = snd b" "fst (dneg a) = - fst a" "fst (dneg b) = - fst b"
    by (simp_all add: dneg_def)
  then have "dadd (dneg a) (dneg b) =
    rnd (dneg (fst a * 2 ^ nat (snd a - min (snd a) (snd b))
             + fst b * 2 ^ nat (snd b - min (snd a) (snd b)), min (snd a) (snd b)))"
    by (simp add: dadd_def Let_def dneg_def)
  then show ?thesis by (simp add: rnd_dneg dadd_def Let_def)
qed

subsection \<open>The weighted sum of a constant input\<close>

text \<open>
  Unfolding everything evaluates the arithmetic on concrete numbers.
\<close>

lemmas dbl_eval = dsub_def dadd_def dmul_def dneg_def d_one_def ewma_alpha_def rnd_def
  round_even_def bit_length_def compute_floorlog double_of_int64_def int64_of_double_def
  cast_defined_def ewma_blend_def dtrunc_def Let_def

lemma one_minus_alpha: "dsub d_one ewma_alpha = (7205759403792794, - 53)"
  by (simp add: dbl_eval)

lemma valof_one_minus_alpha: "valof (7205759403792794, - 53) = 7205759403792794 / 2 ^ 53"
  by (simp add: valof_def power_int_minus_divide)

lemma valof_alpha: "valof ewma_alpha = 3602879701896397 / 2 ^ 54"
  by (simp add: valof_def ewma_alpha_def power_int_minus_divide)

lemma valof_int: "valof (X, 0) = of_int X"
  by (simp add: valof_def)

lemma two_powi_nat_diff: "(2 :: real) powi (int k - int n) = 2 ^ k / 2 ^ n"
  by (simp add: power_int_diff)

text \<open>
  The weighted sum of a constant input, before the cast: the two products and their sum,
  each rounded.
\<close>

lemma blend_pow2:
  assumes k: "k \<le> 52"
  shows "\<lfloor>valof (dadd (dmul (7205759403792794, - 53) (2 ^ k, 0)) (dmul ewma_alpha (2 ^ k, 0)))\<rfloor>
           = 2 ^ k
       \<and> 0 \<le> valof (dadd (dmul (7205759403792794, - 53) (2 ^ k, 0)) (dmul ewma_alpha (2 ^ k, 0)))"
proof -
  define x where "x = (2 :: real) ^ k"
  have vx: "valof (2 ^ k, 0) = x" by (simp add: valof_def x_def)
  have x_pos: "0 < x" by (simp add: x_def)
  have x_le: "x \<le> 2 ^ 52" unfolding x_def using k by (intro power_increasing) simp_all
  obtain xa where xa: "dmul (7205759403792794, - 53) (2 ^ k, 0) = rnd xa"
      "valof xa = 7205759403792794 / 2 ^ 53 * x"
    using dmul_rnd [of "(7205759403792794, - 53)" "(2 ^ k, 0)"]
    by (auto simp: vx valof_one_minus_alpha)
  obtain xb where xb: "dmul ewma_alpha (2 ^ k, 0) = rnd xb"
      "valof xb = 3602879701896397 / 2 ^ 54 * x"
    using dmul_rnd [of ewma_alpha "(2 ^ k, 0)"] by (auto simp: vx valof_alpha)
  have "valof (7205759403792794, int k - int 53) = 7205759403792794 / 2 ^ 53 * x"
    unfolding valof_def fst_conv snd_conv two_powi_nat_diff by (simp add: x_def)
  then have "valof (7205759403792794, int k - int 53) = valof xa"
    using xa(2) by simp
  moreover have "\<bar>valof (rnd xa) - valof xa\<bar> \<le> \<bar>valof (7205759403792794, int k - int 53) - valof xa\<bar>"
    by (rule rnd_nearest) simp
  ultimately have a: "valof (rnd xa) = 7205759403792794 / 2 ^ 53 * x" using xa(2) by simp
  have "valof (3602879701896397, int k - int 54) = 3602879701896397 / 2 ^ 54 * x"
    unfolding valof_def fst_conv snd_conv two_powi_nat_diff by (simp add: x_def)
  then have "valof (3602879701896397, int k - int 54) = valof xb"
    using xb(2) by simp
  moreover have "\<bar>valof (rnd xb) - valof xb\<bar> \<le> \<bar>valof (3602879701896397, int k - int 54) - valof xb\<bar>"
    by (rule rnd_nearest) simp
  ultimately have b: "valof (rnd xb) = 3602879701896397 / 2 ^ 54 * x" using xb(2) by simp
  obtain xs where xs: "dadd (rnd xa) (rnd xb) = rnd xs" "valof xs = valof (rnd xa) + valof (rnd xb)"
    using dadd_rnd [of "rnd xa" "rnd xb"] by auto
  define c where "c = x / 2 ^ 54"
  have c: "0 < c" "c \<le> 1 / 4" using x_pos x_le by (simp_all add: c_def)
  have t: "valof xs = x + c" unfolding xs(2) a b c_def by simp
  have "\<bar>valof (rnd xs) - valof xs\<bar> \<le> \<bar>valof (2 ^ k, 0) - valof xs\<bar>"
  proof (rule rnd_nearest)
    have "(2 :: int) ^ k \<le> 2 ^ 52" using k by (intro power_increasing) simp_all
    then show "\<bar>(2 :: int) ^ k\<bar> < 2 ^ 53" by simp
  qed
  then have "\<bar>valof (rnd xs) - (x + c)\<bar> \<le> \<bar>x - (x + c)\<bar>"
    by (simp only: vx t)
  then have "x \<le> valof (rnd xs)" "valof (rnd xs) < x + 1"
    using c by linarith+
  then have "\<lfloor>valof (rnd xs)\<rfloor> = 2 ^ k" "0 \<le> valof (rnd xs)"
    using x_pos by (simp add: floor_eq_iff x_def, linarith)
  then show ?thesis by (simp add: xa(1) xb(1) xs(1))
qed

lemma blend_between:
  assumes lo: "2 ^ k < X" and hi: "X < 2 ^ (k + 1)" and k: "k \<le> 51"
  shows "\<lfloor>valof (dadd (dmul (7205759403792794, - 53) (X, 0)) (dmul ewma_alpha (X, 0)))\<rfloor> = X
       \<and> 0 \<le> valof (dadd (dmul (7205759403792794, - 53) (X, 0)) (dmul ewma_alpha (X, 0)))"
proof -
  define x where "x = real_of_int X"
  define K where "K = (2 :: real) ^ k"
  define u where "u = K / 2 ^ 52"
  define c where "c = x / 2 ^ 54"
  define h where "h = c / 2 ^ 53"
  have vx: "valof (X, 0) = x" by (simp add: valof_def x_def)
  have "real_of_int (2 ^ k) < real_of_int X" using lo by (simp only: of_int_less_iff)
  then have Kx: "K < x" by (simp add: K_def x_def)
  have "2 ^ k + 1 \<le> X" using lo by simp
  then have "real_of_int (2 ^ k + 1) \<le> real_of_int X" by (simp only: of_int_le_iff)
  then have K1x: "K + 1 \<le> x" by (simp add: K_def x_def)
  have "X + 1 \<le> 2 ^ (k + 1)" using hi by simp
  then have "real_of_int (X + 1) \<le> real_of_int (2 ^ (k + 1))" by (simp only: of_int_le_iff)
  then have xK: "x + 1 \<le> 2 * K" by (simp add: K_def x_def)
  have K1: "1 \<le> K" by (simp add: K_def)
  have "K \<le> 2 ^ 51" unfolding K_def using k by (intro power_increasing) simp_all
  then have u_half: "u \<le> 1 / 2" by (simp add: u_def)
  have u_pos: "0 < u" by (simp add: u_def K_def)
  have x_small: "x < 2 ^ 52" using xK \<open>K \<le> 2 ^ 51\<close> by simp
  have x_pos: "0 < x" using Kx K1 by simp
  have h_small: "18014398509481984 * h < 1"
    using x_small x_pos by (simp add: h_def c_def field_simps)
  have h_pos: "0 < h" using x_pos by (simp add: h_def c_def)
  have cx: "x = 18014398509481984 * c" by (simp add: c_def)
  have uK: "K = 4503599627370496 * u" by (simp add: u_def)
  obtain xa where xa: "dmul (7205759403792794, - 53) (X, 0) = rnd xa"
      "valof xa = 7205759403792794 / 2 ^ 53 * x"
    using dmul_rnd [of "(7205759403792794, - 53)" "(X, 0)"]
    by (auto simp: vx valof_one_minus_alpha)
  obtain xb where xb: "dmul ewma_alpha (X, 0) = rnd xb"
      "valof xb = 3602879701896397 / 2 ^ 54 * x"
    using dmul_rnd [of ewma_alpha "(X, 0)"] by (auto simp: vx valof_alpha)
  define a where "a = valof (rnd xa)"
  define b where "b = valof (rnd xb)"
  have "\<bar>a - valof xa\<bar> \<le> \<bar>valof xa\<bar> / 2 ^ 53" unfolding a_def by (rule rnd_rel_err)
  then have ea: "\<bar>a - 7205759403792794 / 2 ^ 53 * x\<bar> \<le> (7205759403792794 / 2 ^ 53 * x) / 2 ^ 53"
    using x_pos by (simp add: xa(2))
  have "\<bar>b - valof xb\<bar> \<le> \<bar>valof xb\<bar> / 2 ^ 53" unfolding b_def by (rule rnd_rel_err)
  then have eb: "\<bar>b - 3602879701896397 / 2 ^ 54 * x\<bar> \<le> (3602879701896397 / 2 ^ 54 * x) / 2 ^ 53"
    using x_pos by (simp add: xb(2))
  have sum1: "7205759403792794 / 2 ^ 53 * x + 3602879701896397 / 2 ^ 54 * x = x + c"
    by (simp add: c_def)
  have sum2: "(7205759403792794 / 2 ^ 53 * x) / 2 ^ 53 + (3602879701896397 / 2 ^ 54 * x) / 2 ^ 53
      = 2 * c + h"
    by (simp add: c_def h_def)
  have et: "\<bar>(a + b) - (x + c)\<bar> \<le> 2 * c + h"
    using ea eb sum1 sum2 by linarith
  have ch_lo: "c + h < u / 2" using cx uK xK h_small by linarith
  have ch_hi: "3 * c + h < 3 * u / 2" using cx uK xK h_small by linarith
  have "x + c - (2 * c + h) \<le> a + b" using et by linarith
  then have t_lo: "x - u / 2 < a + b" using ch_lo by linarith
  have "a + b \<le> x + c + (2 * c + h)" using et by linarith
  then have t_hi: "a + b < x + 3 * u / 2" using ch_hi by linarith
  obtain xs where xs: "dadd (rnd xa) (rnd xb) = rnd xs" "valof xs = a + b"
    using dadd_rnd [of "rnd xa" "rnd xb"] by (auto simp: a_def b_def)
  define s where "s = valof (rnd xs)"
  have X_pos: "0 < X"
  proof -
    have "(0 :: int) < 2 ^ k" by simp
    then show ?thesis using lo by linarith
  qed
  have "\<bar>X\<bar> < 2 ^ 53"
  proof -
    have "(2 :: int) ^ (k + 1) \<le> 2 ^ 52" using k by (intro power_increasing) simp_all
    then have "X < 2 ^ 52" using hi by linarith
    then show ?thesis using X_pos by simp
  qed
  then have "\<bar>s - valof xs\<bar> \<le> \<bar>valof (X, 0) - valof xs\<bar>"
    unfolding s_def by (rule rnd_nearest)
  then have n1: "\<bar>s - (a + b)\<bar> \<le> \<bar>x - (a + b)\<bar>" by (simp only: vx xs(2))
  define Y where "Y = X * 2 ^ (52 - k) + 1"
  have pw: "(2 :: int) ^ (52 - k) * 2 ^ k = 2 ^ 52"
    using k by (simp flip: power_add)
  have Ybound: "\<bar>Y\<bar> < 2 ^ 53"
  proof -
    have "(X + 1) * 2 ^ (52 - k) \<le> 2 ^ (k + 1) * 2 ^ (52 - k)"
      using \<open>X + 1 \<le> 2 ^ (k + 1)\<close> by (intro mult_right_mono) simp_all
    also have "\<dots> = 2 ^ 53" using k by (simp flip: power_add)
    finally have "X * 2 ^ (52 - k) + 2 ^ (52 - k) \<le> 2 ^ 53" by (simp add: algebra_simps)
    moreover have "(2 :: int) ^ 1 \<le> 2 ^ (52 - k)" using k by (intro power_increasing) simp_all
    moreover have "0 \<le> X * 2 ^ (52 - k)" using X_pos by simp
    ultimately show ?thesis by (simp add: Y_def)
  qed
  have xY: "real_of_int (X * 2 ^ (52 - k)) * u = x"
  proof -
    have "real_of_int (2 ^ (52 - k) * 2 ^ k) = 2 ^ 52" by (simp only: pw) simp
    then have "(2 :: real) ^ (52 - k) * K = 2 ^ 52" by (simp add: K_def)
    then have "(2 :: real) ^ (52 - k) * u = 1" by (simp add: u_def)
    then have "x * ((2 :: real) ^ (52 - k) * u) = x" by simp
    then show ?thesis by (simp add: x_def algebra_simps)
  qed
  have u_powi: "(2 :: real) powi (int k - int 52) = u"
    by (simp only: two_powi_nat_diff u_def K_def)
  have vY: "valof (Y, int k - int 52) = x + u"
    unfolding valof_def fst_conv snd_conv u_powi using xY by (simp add: Y_def algebra_simps)
  have "\<bar>s - valof xs\<bar> \<le> \<bar>valof (Y, int k - int 52) - valof xs\<bar>"
    unfolding s_def using Ybound by (rule rnd_nearest)
  then have n2: "\<bar>s - (a + b)\<bar> \<le> \<bar>x + u - (a + b)\<bar>" by (simp only: vY xs(2))
  have s_lo: "x - u < s" using n1 t_lo u_pos by linarith
  have s_hi: "s < x + 2 * u" using n2 t_hi u_pos by linarith
  obtain m' e' where rep: "\<bar>m'\<bar> < 2 ^ 53" "s = valof (m', e')"
    using rnd_representable [of xs] by (auto simp: s_def)
  have "K \<le> s" using s_lo K1x u_half by linarith
  then have "2 ^ k \<le> valof (m', e')" by (simp add: K_def rep(2))
  from representable_grid [OF rep(1) this] obtain j :: int where "valof (m', e') = of_int j * u"
    using u_powi by auto
  then have sj: "s = of_int j * u" by (simp add: rep(2))
  have "(real_of_int (X * 2 ^ (52 - k)) - 1) * u < of_int j * u"
    using s_lo xY sj by (simp add: algebra_simps)
  then have "real_of_int (X * 2 ^ (52 - k)) - 1 < of_int j"
    using u_pos by (simp only: mult_less_cancel_right_pos)
  then have "real_of_int (X * 2 ^ (52 - k) - 1) < of_int j" by simp
  then have "X * 2 ^ (52 - k) - 1 < j" by (simp only: of_int_less_iff)
  then have "X * 2 ^ (52 - k) \<le> j" by simp
  then have "real_of_int (X * 2 ^ (52 - k)) \<le> of_int j" by (simp only: of_int_le_iff)
  then have "real_of_int (X * 2 ^ (52 - k)) * u \<le> of_int j * u"
    using u_pos by (intro mult_right_mono) simp_all
  then have "x \<le> s" by (simp only: xY sj)
  moreover have "s < x + 1" using s_hi u_half by linarith
  ultimately have "\<lfloor>s\<rfloor> = X" "0 \<le> s"
    using x_pos by (simp add: floor_eq_iff x_def, linarith)
  then show ?thesis by (simp add: xa(1) xb(1) xs(1) s_def)
qed

lemma bit_length_bounds:
  assumes "0 < X"
  shows "2 ^ (bit_length X - 1) \<le> X \<and> X < 2 ^ (bit_length X - 1 + 1)"
proof -
  have pos: "0 < bit_length X"
    using assms bit_length_le_iff [of X 0] by (cases "bit_length X") auto
  then have "bit_length X - 1 < bit_length X" by simp
  then have "2 ^ (bit_length X - 1) \<le> \<bar>X\<bar>" by (rule bit_length_gt_imp)
  moreover have "\<bar>X\<bar> < 2 ^ bit_length X" using bit_length_le_iff [of X "bit_length X"] by simp
  ultimately show ?thesis using assms pos by simp
qed

lemma blend_fixed_pos:
  assumes "0 < X" and "X \<le> 2 ^ 52"
  shows "\<lfloor>valof (dadd (dmul (7205759403792794, - 53) (X, 0)) (dmul ewma_alpha (X, 0)))\<rfloor> = X
       \<and> 0 \<le> valof (dadd (dmul (7205759403792794, - 53) (X, 0)) (dmul ewma_alpha (X, 0)))"
proof -
  define k where "k = bit_length X - 1"
  have b: "2 ^ k \<le> X" "X < 2 ^ (k + 1)"
    using bit_length_bounds [OF assms(1)] by (simp_all add: k_def)
  show ?thesis
  proof (cases "X = 2 ^ k")
    case True
    have "(2 :: int) ^ k \<le> 2 ^ 52" using assms(2) True by simp
    then have "k \<le> 52" by (rule power_le_imp_le_exp [rotated]) simp
    then show ?thesis unfolding True by (rule blend_pow2)
  next
    case False
    then have lo: "2 ^ k < X" using b(1) by simp
    then have "(2 :: int) ^ k < 2 ^ 52" using assms(2) by linarith
    then have "k < 52" by (rule power_less_imp_less_exp [rotated]) simp
    then have "k \<le> 51" by simp
    with lo b(2) show ?thesis by (rule blend_between)
  qed
qed

lemma dtrunc_blend_fixed:
  assumes "\<bar>X\<bar> \<le> 2 ^ 52"
  shows "dtrunc (dadd (dmul (7205759403792794, - 53) (X, 0)) (dmul ewma_alpha (X, 0))) = X"
proof -
  have pos: "dtrunc (dadd (dmul (7205759403792794, - 53) (Y, 0)) (dmul ewma_alpha (Y, 0))) = Y"
    if "0 < Y" "Y \<le> 2 ^ 52" for Y
    using blend_fixed_pos [OF that] by (simp add: dtrunc_nonneg)
  consider "0 < X" | "X = 0" | "X < 0" by linarith
  then show ?thesis
  proof cases
    case 1
    then show ?thesis using assms pos by simp
  next
    case 2
    then show ?thesis by (simp add: dbl_eval)
  next
    case 3
    have neg: "(X, 0) = dneg (- X, 0)" by (simp add: dneg_def)
    have "0 < - X" "- X \<le> 2 ^ 52" using 3 assms by simp_all
    then have "dtrunc (dadd (dmul (7205759403792794, - 53) (- X, 0)) (dmul ewma_alpha (- X, 0))) = - X"
      by (rule pos)
    then show ?thesis
      unfolding neg dmul_dneg dadd_dneg dtrunc_dneg by simp
  qed
qed

lemma double_of_int64_exact:
  assumes "\<bar>sint x\<bar> \<le> 2 ^ 52"
  shows "double_of_int64 x = (sint x, 0)"
proof -
  have "\<bar>sint x\<bar> < 2 ^ 53" using assms by simp
  then have "bit_length (sint x) \<le> 53" by (simp only: bit_length_le_iff)
  then show ?thesis by (simp add: double_of_int64_def rnd_small)
qed

lemma sint_int64_of_double:
  assumes "cast_defined d"
  shows "sint (int64_of_double d) = dtrunc d"
  using assms by (simp add: int64_of_double_def cast_defined_def signed_of_int
      signed_take_bit_int_eq_self)

lemma ewma_blend_fixed:
  assumes "\<bar>sint X\<bar> \<le> 2 ^ 52"
  shows "int64_of_double (ewma_blend X X) = X"
proof -
  have b: "ewma_blend X X
      = dadd (dmul (7205759403792794, - 53) (sint X, 0)) (dmul ewma_alpha (sint X, 0))"
    by (simp add: ewma_blend_def one_minus_alpha double_of_int64_exact [OF assms])
  have t: "dtrunc (ewma_blend X X) = sint X"
    unfolding b using assms by (rule dtrunc_blend_fixed)
  have "- (2 ^ 63) \<le> sint X" "sint X < 2 ^ 63"
    using sint_ge [of X] sint_lt [of X] by simp_all
  then show ?thesis by (simp add: int64_of_double_def cast_defined_def t)
qed

lemma update_ewma_fixed:
  assumes "\<bar>sint X\<bar> \<le> 2 ^ 52" and "sample_count s = 0 \<or> ewma_offset_ns s = X"
  shows "ewma_offset_ns (update_ewma X s) = X"
  using assms by (auto simp: update_ewma_def ewma_blend_fixed)

subsection \<open>The error of the weighted sum\<close>

lemma dtrunc_err: "\<bar>real_of_int (dtrunc d) - valof d\<bar> < 1"
proof (cases "0 \<le> valof d")
  case True
  then have "dtrunc d = \<lfloor>valof d\<rfloor>" by (rule dtrunc_nonneg)
  then show ?thesis by simp linarith
next
  case False
  then have "0 \<le> valof (dneg d)" by (simp add: valof_dneg)
  then have "dtrunc (dneg d) = \<lfloor>valof (dneg d)\<rfloor>" by (rule dtrunc_nonneg)
  then have "dtrunc d = - \<lfloor>- valof d\<rfloor>" by (simp add: dtrunc_dneg valof_dneg)
  then show ?thesis by simp linarith
qed

text \<open>
  The cast rounds towards zero: down for a value that is not negative, up for a negative one.
\<close>

lemma dtrunc_toward_zero:
  "dtrunc d = (if 0 \<le> valof d then \<lfloor>valof d\<rfloor> else \<lceil>valof d\<rceil>)"
proof (cases "0 \<le> valof d")
  case True
  then show ?thesis by (simp add: dtrunc_nonneg)
next
  case False
  then have "0 \<le> valof (dneg d)" by (simp add: valof_dneg)
  then have "dtrunc (dneg d) = \<lfloor>valof (dneg d)\<rfloor>" by (rule dtrunc_nonneg)
  then have "dtrunc d = - \<lfloor>- valof d\<rfloor>" by (simp add: dtrunc_dneg valof_dneg)
  then show ?thesis using False by (simp add: ceiling_def)
qed

text \<open>The two constants against \<open>4/5\<close> and \<open>1/5\<close>.\<close>

lemma valof_one_minus_alpha_real: "valof (7205759403792794, - 53) = 4 / 5 * (1 + 1 / 2 ^ 54)"
  by (simp add: valof_one_minus_alpha)

lemma valof_alpha_real: "valof ewma_alpha = 1 / 5 * (1 + 1 / 2 ^ 54)"
  by (simp add: valof_alpha)

text \<open>One rounded product \<open>c * x\<close> of a constant with a converted integer.\<close>

lemma product_err:
  fixes w :: real
  assumes w: "0 \<le> w"
    and c: "valof cst = w * (1 + 1 / 2 ^ 54)"
  shows "\<bar>valof (dmul cst (rnd (X, 0))) - w * of_int X\<bar>
           \<le> w * \<bar>of_int X\<bar> * (5 / 2 ^ 54 + 4 / 2 ^ 106)"
proof -
  define p where "p = \<bar>real_of_int X\<bar>"
  define x where "x = valof (rnd (X, 0))"
  define \<epsilon> where "\<epsilon> = (1 :: real) / 2 ^ 53"
  have \<epsilon>: "0 < \<epsilon>" "\<epsilon> < 1" by (simp_all add: \<epsilon>_def)
  have p: "0 \<le> p" by (simp add: p_def)
  have "\<bar>x - valof (X, 0)\<bar> \<le> \<bar>valof (X, 0)\<bar> / 2 ^ 53" unfolding x_def by (rule rnd_rel_err)
  then have ex: "\<bar>x - of_int X\<bar> \<le> p * \<epsilon>" by (simp add: valof_int p_def \<epsilon>_def)
  obtain xa where xa: "dmul cst (rnd (X, 0)) = rnd xa" "valof xa = valof cst * x"
    using dmul_rnd [of cst "rnd (X, 0)"] by (auto simp: x_def)
  define a where "a = valof (rnd xa)"
  have "\<bar>a - valof xa\<bar> \<le> \<bar>valof xa\<bar> / 2 ^ 53" unfolding a_def by (rule rnd_rel_err)
  then have ea: "\<bar>a - w * (1 + \<epsilon> / 2) * x\<bar> \<le> \<bar>w * (1 + \<epsilon> / 2) * x\<bar> * \<epsilon>"
    by (simp add: xa(2) c \<epsilon>_def)
  have absx: "\<bar>x\<bar> \<le> p + p * \<epsilon>" using ex p_def by linarith
  define wp where "wp = w * p"
  have wp: "0 \<le> wp" using w p by (simp add: wp_def)
  have "\<bar>w * (1 + \<epsilon> / 2) * x\<bar> = w * (1 + \<epsilon> / 2) * \<bar>x\<bar>"
    using w \<epsilon> by (simp add: abs_mult)
  also have "\<dots> \<le> w * (1 + \<epsilon> / 2) * (p + p * \<epsilon>)"
    using absx w \<epsilon> by (intro mult_left_mono) simp_all
  also have "\<dots> = wp * ((1 + \<epsilon> / 2) * (1 + \<epsilon>))" by (simp add: wp_def algebra_simps)
  finally have m1: "\<bar>w * (1 + \<epsilon> / 2) * x\<bar> \<le> wp * ((1 + \<epsilon> / 2) * (1 + \<epsilon>))" .
  have "\<bar>w * (1 + \<epsilon> / 2) * x - w * of_int X\<bar> = w * \<bar>(x - of_int X) + \<epsilon> / 2 * x\<bar>"
  proof -
    have "w * (1 + \<epsilon> / 2) * x - w * of_int X = w * ((x - of_int X) + \<epsilon> / 2 * x)"
      by (simp add: algebra_simps)
    then show ?thesis using w by (simp only: abs_mult abs_of_nonneg)
  qed
  also have "\<dots> \<le> w * (p * \<epsilon> + \<epsilon> / 2 * (p + p * \<epsilon>))"
  proof (intro mult_left_mono w)
    have "\<bar>\<epsilon> / 2 * x\<bar> \<le> \<epsilon> / 2 * (p + p * \<epsilon>)"
      using absx \<epsilon> by (simp add: abs_mult)
    then show "\<bar>(x - of_int X) + \<epsilon> / 2 * x\<bar> \<le> p * \<epsilon> + \<epsilon> / 2 * (p + p * \<epsilon>)"
      using ex by linarith
  qed
  also have "\<dots> = wp * (\<epsilon> + \<epsilon> / 2 * (1 + \<epsilon>))" by (simp add: wp_def algebra_simps)
  finally have m2: "\<bar>w * (1 + \<epsilon> / 2) * x - w * of_int X\<bar> \<le> wp * (\<epsilon> + \<epsilon> / 2 * (1 + \<epsilon>))" .
  have "wp * ((1 + \<epsilon> / 2) * (1 + \<epsilon>)) * \<epsilon> + wp * (\<epsilon> + \<epsilon> / 2 * (1 + \<epsilon>))
      = wp * ((1 + \<epsilon> / 2) * (1 + \<epsilon>) * \<epsilon> + (\<epsilon> + \<epsilon> / 2 * (1 + \<epsilon>)))"
    by (simp add: algebra_simps)
  moreover have "(1 + \<epsilon> / 2) * (1 + \<epsilon>) * \<epsilon> + (\<epsilon> + \<epsilon> / 2 * (1 + \<epsilon>)) \<le> 5 / 2 ^ 54 + 4 / 2 ^ 106"
    by (simp add: \<epsilon>_def)
  then have "wp * ((1 + \<epsilon> / 2) * (1 + \<epsilon>) * \<epsilon> + (\<epsilon> + \<epsilon> / 2 * (1 + \<epsilon>)))
      \<le> wp * (5 / 2 ^ 54 + 4 / 2 ^ 106)"
    using wp by (rule mult_left_mono)
  moreover have "\<bar>a - w * of_int X\<bar>
      \<le> \<bar>a - w * (1 + \<epsilon> / 2) * x\<bar> + \<bar>w * (1 + \<epsilon> / 2) * x - w * of_int X\<bar>"
    by linarith
  moreover have "\<bar>a - w * (1 + \<epsilon> / 2) * x\<bar> \<le> wp * ((1 + \<epsilon> / 2) * (1 + \<epsilon>)) * \<epsilon>"
    using ea m1 \<epsilon> by (meson mult_right_mono order_trans less_imp_le)
  ultimately have "\<bar>a - w * of_int X\<bar> \<le> wp * (5 / 2 ^ 54 + 4 / 2 ^ 106)"
    using m2 by linarith
  then show ?thesis by (simp add: a_def xa(1) wp_def p_def)
qed

lemma ewma_blend_err:
  "\<bar>valof (ewma_blend E R) - (4 / 5 * of_int (sint E) + 1 / 5 * of_int (sint R))\<bar>
     \<le> (4 / 5 * \<bar>of_int (sint E)\<bar> + 1 / 5 * \<bar>of_int (sint R)\<bar>) / 2 ^ 51"
proof -
  define e where "e = real_of_int (sint E)"
  define r where "r = real_of_int (sint R)"
  define a where "a = valof (dmul (7205759403792794, - 53) (rnd (sint E, 0)))"
  define b where "b = valof (dmul ewma_alpha (rnd (sint R, 0)))"
  define \<delta> where "\<delta> = (5 :: real) / 2 ^ 54 + 4 / 2 ^ 106"
  define W where "W = 4 / 5 * \<bar>e\<bar> + 1 / 5 * \<bar>r\<bar>"
  have W: "0 \<le> W" by (simp add: W_def)
  have "\<bar>a - 4 / 5 * e\<bar> \<le> 4 / 5 * \<bar>e\<bar> * \<delta>"
    unfolding a_def e_def \<delta>_def
    by (rule product_err) (simp_all add: valof_one_minus_alpha_real)
  moreover have "\<bar>b - 1 / 5 * r\<bar> \<le> 1 / 5 * \<bar>r\<bar> * \<delta>"
    unfolding b_def r_def \<delta>_def
    by (rule product_err) (simp_all add: valof_alpha_real)
  moreover have "4 / 5 * \<bar>e\<bar> * \<delta> + 1 / 5 * \<bar>r\<bar> * \<delta> = W * \<delta>"
    by (simp add: W_def algebra_simps)
  ultimately have ab: "\<bar>(a + b) - (4 / 5 * e + 1 / 5 * r)\<bar> \<le> W * \<delta>" by linarith
  have "\<bar>4 / 5 * e + 1 / 5 * r\<bar> \<le> W" unfolding W_def by linarith
  then have abs_ab: "\<bar>a + b\<bar> \<le> W + W * \<delta>" using ab by linarith
  obtain xs where xs: "ewma_blend E R = rnd xs" "valof xs = a + b"
    using dadd_rnd [of "dmul (dsub d_one ewma_alpha) (double_of_int64 E)"
        "dmul ewma_alpha (double_of_int64 R)"]
    by (auto simp: ewma_blend_def a_def b_def one_minus_alpha double_of_int64_def)
  define s where "s = valof (rnd xs)"
  have "\<bar>s - valof xs\<bar> \<le> \<bar>valof xs\<bar> / 2 ^ 53" unfolding s_def by (rule rnd_rel_err)
  then have "\<bar>s - (a + b)\<bar> \<le> \<bar>a + b\<bar> / 2 ^ 53" by (simp only: xs(2))
  also have "\<dots> \<le> (W + W * \<delta>) / 2 ^ 53" using abs_ab by (simp add: divide_right_mono)
  finally have "\<bar>s - (4 / 5 * e + 1 / 5 * r)\<bar> \<le> (W + W * \<delta>) / 2 ^ 53 + W * \<delta>"
    using ab by linarith
  also have "\<dots> = W * ((1 + \<delta>) / 2 ^ 53 + \<delta>)" by (simp add: algebra_simps)
  also have "\<dots> \<le> W * (1 / 2 ^ 51)"
    using W by (intro mult_left_mono) (simp_all add: \<delta>_def)
  finally show ?thesis by (simp add: s_def xs(1) e_def r_def W_def)
qed

lemma constant_offset_run:
  assumes X: "\<bar>sint X\<bar> \<le> 2 ^ 52"
    and "sample_count s = 0 \<or> ewma_offset_ns s = X"
    and "ticks \<noteq> []"
    and "\<forall>t \<in> set ticks. tv_sec (now (fst t)) = last_discipline_sec s
            \<and> tick_offset_ns (now (fst t)) (snd t) = X"
  shows "ewma_offset_ns (run_ticks ticks s) = X"
  using assms(2-)
proof (induction ticks arbitrary: s)
  case Nil
  then show ?case by simp
next
  case (Cons t ticks)
  obtain w src where t: "t = (w, src)" by (cases t)
  define s1 where "s1 = update_ewma X s"
  have sec: "tv_sec (now w) = last_discipline_sec s" and off: "tick_offset_ns (now w) src = X"
    using Cons.prems(3) t by simp_all
  have step: "snd (on_time_source_tick w src s) = s1"
    using tick_skip [OF sec, of src] by (simp add: off s1_def)
  have e1: "ewma_offset_ns s1 = X"
    unfolding s1_def using X Cons.prems(1) by (rule update_ewma_fixed)
  show ?case
  proof (cases "ticks = []")
    case True
    then show ?thesis by (simp add: t step e1)
  next
    case False
    have "\<forall>u \<in> set ticks. tv_sec (now (fst u)) = last_discipline_sec s1
            \<and> tick_offset_ns (now (fst u)) (snd u) = X"
      using Cons.prems(3) by (simp add: s1_def)
    with Cons.IH [of s1] e1 False have "ewma_offset_ns (run_ticks ticks s1) = X" by simp
    then show ?thesis by (simp add: t step)
  qed
qed

lemma constant_offset_no_decision:
  assumes "\<forall>t \<in> set ticks. tv_sec (now (fst t)) = last_discipline_sec s"
  shows "decision_secs ticks s = []"
  using assms
proof (induction ticks arbitrary: s)
  case Nil
  then show ?case by simp
next
  case (Cons t ticks)
  obtain w src where t: "t = (w, src)" by (cases t)
  have sec: "tv_sec (now w) = last_discipline_sec s" using Cons.prems t by simp
  have "last_discipline_sec (snd (on_time_source_tick w src s)) = last_discipline_sec s"
    using tick_last [of w src s] sec by simp
  then have "decision_secs ticks (snd (on_time_source_tick w src s)) = []"
    using Cons.IH [of "snd (on_time_source_tick w src s)"] Cons.prems by simp
  then show ?case by (simp add: t decision_secs_Cons sec)
qed

section \<open>The claims\<close>

subsection \<open>Rate limiting\<close>




subsection \<open>The threshold\<close>

text \<open>
  Whenever the decision runs on an estimate other than \<open>INT64_MIN\<close>, the step is taken
  exactly when the absolute value of the estimate is strictly greater than 3,000,000 ns,
  and the slew otherwise.
\<close>

lemma branch_threshold:
  assumes "current_sec \<noteq> last_discipline_sec s" and "ewma_offset_ns s \<noteq> INT64_MIN"
  shows "((\<exists>t. Clock_settime t \<in> set (fst (discipline_if_needed w current_sec s)))
            \<longleftrightarrow> 3000000 < \<bar>sint (ewma_offset_ns s)\<bar>)
       \<and> ((\<exists>u. Clock_adjtime u \<in> set (fst (discipline_if_needed w current_sec s)))
            \<longleftrightarrow> \<bar>sint (ewma_offset_ns s)\<bar> \<le> 3000000)"
proof (cases "3 * 1000000 <s abs_offset_ns s")
  case True
  then have "3000000 < \<bar>sint (ewma_offset_ns s)\<bar>"
    using step_branch_iff [OF assms(2)] by simp
  then show ?thesis
    using discipline_step [OF assms(1) True, of w] settime_in_step adjtime_notin_step
    by auto
next
  case False
  then have "\<not> 3000000 < \<bar>sint (ewma_offset_ns s)\<bar>"
    using step_branch_iff [OF assms(2)] by simp
  then show ?thesis
    using discipline_slew [OF assms(1) False, of w] adjtime_in_slew settime_notin_slew
    by auto
qed

text \<open>
  At the boundary: 3,000,000 ns slews, 3,000,001 ns steps.
\<close>

lemma branch_threshold_at_boundary:
  "(1 :: int64) \<noteq> last_discipline_sec \<lparr>ewma_offset_ns = 3000000, sample_count = 1, last_discipline_sec = 0\<rparr>
   \<and> ewma_offset_ns \<lparr>ewma_offset_ns = 3000000, sample_count = 1, last_discipline_sec = 0\<rparr> \<noteq> INT64_MIN
   \<and> (\<exists>u. Clock_adjtime u \<in> set (fst (discipline_if_needed
          \<lparr>now = \<lparr>tv_sec = 1, tv_nsec = 0\<rparr>, now_step = \<lparr>tv_sec = 1, tv_nsec = 0\<rparr>,
            settime_ok = True, adjtime_ok = True\<rparr> 1
          \<lparr>ewma_offset_ns = 3000000, sample_count = 1, last_discipline_sec = 0\<rparr>)))
   \<and> \<not> (\<exists>t. Clock_settime t \<in> set (fst (discipline_if_needed
          \<lparr>now = \<lparr>tv_sec = 1, tv_nsec = 0\<rparr>, now_step = \<lparr>tv_sec = 1, tv_nsec = 0\<rparr>,
            settime_ok = True, adjtime_ok = True\<rparr> 1
          \<lparr>ewma_offset_ns = 3000000, sample_count = 1, last_discipline_sec = 0\<rparr>)))
   \<and> (\<exists>t. Clock_settime t \<in> set (fst (discipline_if_needed
          \<lparr>now = \<lparr>tv_sec = 1, tv_nsec = 0\<rparr>, now_step = \<lparr>tv_sec = 1, tv_nsec = 0\<rparr>,
            settime_ok = True, adjtime_ok = True\<rparr> 1
          \<lparr>ewma_offset_ns = 3000001, sample_count = 1, last_discipline_sec = 0\<rparr>)))
   \<and> \<not> (\<exists>u. Clock_adjtime u \<in> set (fst (discipline_if_needed
          \<lparr>now = \<lparr>tv_sec = 1, tv_nsec = 0\<rparr>, now_step = \<lparr>tv_sec = 1, tv_nsec = 0\<rparr>,
            settime_ok = True, adjtime_ok = True\<rparr> 1
          \<lparr>ewma_offset_ns = 3000001, sample_count = 1, last_discipline_sec = 0\<rparr>)))"
  using branch_threshold [of 1 "\<lparr>ewma_offset_ns = 3000000, sample_count = 1, last_discipline_sec = 0\<rparr>"
          "\<lparr>now = \<lparr>tv_sec = 1, tv_nsec = 0\<rparr>, now_step = \<lparr>tv_sec = 1, tv_nsec = 0\<rparr>,
            settime_ok = True, adjtime_ok = True\<rparr>"]
    branch_threshold [of 1 "\<lparr>ewma_offset_ns = 3000001, sample_count = 1, last_discipline_sec = 0\<rparr>"
          "\<lparr>now = \<lparr>tv_sec = 1, tv_nsec = 0\<rparr>, now_step = \<lparr>tv_sec = 1, tv_nsec = 0\<rparr>,
            settime_ok = True, adjtime_ok = True\<rparr>"]
  by (simp add: INT64_MIN_def)

text \<open>
  Claim C2: whenever the decision runs, an estimate of 3,000,001 ns or more in absolute
  value takes the step. The code forms the absolute value as
  \<^verbatim>\<open>ewma_offset_ns >= 0 ? ewma_offset_ns : -ewma_offset_ns\<close>, which has no value for
  \<open>INT64_MIN\<close>: the negation yields \<open>INT64_MIN\<close> again, the comparison with 3,000,000 fails
  and the slew is taken on the largest offset there is. One call on a fresh object reaches
  that estimate: with the clock at 1 s and a source \<open>2 ^ 57\<close> ms ahead, the product with
  \<open>1000000\<close> is \<open>INT64_MIN\<close>.
\<close>

theorem branch_int64_min:
  "tick_offset_ns \<lparr>tv_sec = 1, tv_nsec = 0\<rparr> 144115188075856872 = INT64_MIN
   \<and> 3000000 < \<bar>sint INT64_MIN\<bar>
   \<and> on_time_source_tick
        \<lparr>now = \<lparr>tv_sec = 1, tv_nsec = 0\<rparr>, now_step = \<lparr>tv_sec = 1, tv_nsec = 0\<rparr>,
           settime_ok = True, adjtime_ok = True\<rparr> 144115188075856872 clock_discipliner_ctor
      = ([Log_filtered INT64_MIN, Clock_adjtime (- 9223372036854775), Log_slewed INT64_MIN],
         \<lparr>ewma_offset_ns = INT64_MIN, sample_count = 1, last_discipline_sec = 1\<rparr>)"
  by (simp add: tick_eval)

subsection \<open>What the two branches do to the estimate\<close>

text \<open>
  Claim C3: after every execution of \<^verbatim>\<open>step_clock\<close> the filtered estimate is zero,
  whether \<^verbatim>\<open>clock_settime\<close> succeeded or failed, so that the next filter update starts
  from the estimate 0 and not from the value before the step; a call of
  \<^verbatim>\<open>on_time_source_tick\<close> that issues the step returns with the estimate 0.
\<close>

theorem step_resets_estimate:
  "ewma_offset_ns (snd (step_clock w s)) = 0
   \<and> update_ewma offset_ns (snd (step_clock w s))
       = update_ewma offset_ns (s\<lparr>ewma_offset_ns := 0\<rparr>)
   \<and> (Clock_settime t \<in> set (fst (on_time_source_tick w' time_source_ms s')) \<longrightarrow>
        ewma_offset_ns (snd (on_time_source_tick w' time_source_ms s')) = 0)"
proof (intro conjI impI)
  show "ewma_offset_ns (snd (step_clock w s)) = 0"
    by (simp add: snd_step_clock)
next
  show "update_ewma offset_ns (snd (step_clock w s))
      = update_ewma offset_ns (s\<lparr>ewma_offset_ns := 0\<rparr>)"
    by (simp add: snd_step_clock)
next
  let ?s1 = "update_ewma (tick_offset_ns (now w') time_source_ms) s'"
  let ?c = "tv_sec (now w')"
  assume a: "Clock_settime t \<in> set (fst (on_time_source_tick w' time_source_ms s'))"
  have ne: "?c \<noteq> last_discipline_sec ?s1"
    using a by (auto simp: on_time_source_tick_def discipline_skip)
  have "3 * 1000000 <s abs_offset_ns ?s1"
  proof (rule ccontr)
    assume "\<not> 3 * 1000000 <s abs_offset_ns ?s1"
    from discipline_slew [OF ne this, of w'] a show False
      by (simp add: on_time_source_tick_def settime_notin_slew)
  qed
  from discipline_step [OF ne this, of w']
  show "ewma_offset_ns (snd (on_time_source_tick w' time_source_ms s')) = 0"
    by (simp add: on_time_source_tick_def)
qed

theorem step_resets_estimate_witness:
  "Clock_settime \<lparr>tv_sec = 103, tv_nsec = 0\<rparr> \<in> set (fst (on_time_source_tick
      \<lparr>now = \<lparr>tv_sec = 100, tv_nsec = 0\<rparr>, now_step = \<lparr>tv_sec = 100, tv_nsec = 0\<rparr>,
         settime_ok = False, adjtime_ok = True\<rparr> 103000 clock_discipliner_ctor))
   \<and> Log_step_failed \<in> set (fst (on_time_source_tick
      \<lparr>now = \<lparr>tv_sec = 100, tv_nsec = 0\<rparr>, now_step = \<lparr>tv_sec = 100, tv_nsec = 0\<rparr>,
         settime_ok = False, adjtime_ok = True\<rparr> 103000 clock_discipliner_ctor))
   \<and> ewma_offset_ns (snd (on_time_source_tick
      \<lparr>now = \<lparr>tv_sec = 100, tv_nsec = 0\<rparr>, now_step = \<lparr>tv_sec = 100, tv_nsec = 0\<rparr>,
         settime_ok = False, adjtime_ok = True\<rparr> 103000 clock_discipliner_ctor)) = 0"
proof -
  have "fst (on_time_source_tick
      \<lparr>now = \<lparr>tv_sec = 100, tv_nsec = 0\<rparr>, now_step = \<lparr>tv_sec = 100, tv_nsec = 0\<rparr>,
         settime_ok = False, adjtime_ok = True\<rparr> 103000 clock_discipliner_ctor)
    = [Log_filtered 3000000000, Clock_settime \<lparr>tv_sec = 103, tv_nsec = 0\<rparr>, Log_step_failed]"
    by (simp add: tick_eval)
  then show ?thesis
    using step_resets_estimate [of _ _ _ "\<lparr>tv_sec = 103, tv_nsec = 0\<rparr>"
      "\<lparr>now = \<lparr>tv_sec = 100, tv_nsec = 0\<rparr>, now_step = \<lparr>tv_sec = 100, tv_nsec = 0\<rparr>,
         settime_ok = False, adjtime_ok = True\<rparr>" 103000 clock_discipliner_ctor]
    by simp
qed

text \<open>
  Claim C4: \<^verbatim>\<open>slew_clock\<close> changes no field, and a decision that issues the slew
  leaves the filtered estimate as it found it.
\<close>

theorem slew_preserves_estimate:
  "snd (slew_clock w s) = s
   \<and> (Clock_adjtime u \<in> set (fst (discipline_if_needed w' current_sec s')) \<longrightarrow>
        ewma_offset_ns (snd (discipline_if_needed w' current_sec s')) = ewma_offset_ns s')"
proof (intro conjI impI)
  show "snd (slew_clock w s) = s" by (rule snd_slew_clock)
next
  assume a: "Clock_adjtime u \<in> set (fst (discipline_if_needed w' current_sec s'))"
  have ne: "current_sec \<noteq> last_discipline_sec s'"
    using a by (auto simp: discipline_skip)
  have "\<not> 3 * 1000000 <s abs_offset_ns s'"
  proof
    assume "3 * 1000000 <s abs_offset_ns s'"
    from discipline_step [OF ne this, of w'] a show False
      by (simp add: adjtime_notin_step)
  qed
  from discipline_slew [OF ne this, of w']
  show "ewma_offset_ns (snd (discipline_if_needed w' current_sec s')) = ewma_offset_ns s'"
    by simp
qed

theorem slew_preserves_estimate_witness:
  "Clock_adjtime 2500 \<in> set (fst (discipline_if_needed
      \<lparr>now = \<lparr>tv_sec = 100, tv_nsec = 0\<rparr>, now_step = \<lparr>tv_sec = 100, tv_nsec = 0\<rparr>,
         settime_ok = True, adjtime_ok = True\<rparr> 100
      \<lparr>ewma_offset_ns = 2500000, sample_count = 7, last_discipline_sec = 99\<rparr>))
   \<and> ewma_offset_ns (snd (discipline_if_needed
      \<lparr>now = \<lparr>tv_sec = 100, tv_nsec = 0\<rparr>, now_step = \<lparr>tv_sec = 100, tv_nsec = 0\<rparr>,
         settime_ok = True, adjtime_ok = True\<rparr> 100
      \<lparr>ewma_offset_ns = 2500000, sample_count = 7, last_discipline_sec = 99\<rparr>)) = 2500000"
proof -
  have "fst (discipline_if_needed
      \<lparr>now = \<lparr>tv_sec = 100, tv_nsec = 0\<rparr>, now_step = \<lparr>tv_sec = 100, tv_nsec = 0\<rparr>,
         settime_ok = True, adjtime_ok = True\<rparr> 100
      \<lparr>ewma_offset_ns = 2500000, sample_count = 7, last_discipline_sec = 99\<rparr>)
    = [Log_filtered 2500000, Clock_adjtime 2500, Log_slewed 2500000]"
    by (simp add: tick_eval)
  then show ?thesis
    using slew_preserves_estimate [of _ _ 2500
      "\<lparr>now = \<lparr>tv_sec = 100, tv_nsec = 0\<rparr>, now_step = \<lparr>tv_sec = 100, tv_nsec = 0\<rparr>,
         settime_ok = True, adjtime_ok = True\<rparr>" 100
      "\<lparr>ewma_offset_ns = 2500000, sample_count = 7, last_discipline_sec = 99\<rparr>"]
    by simp
qed

subsection \<open>The first sample\<close>

text \<open>
  Claim C5: with \<open>sample_count = 0\<close> the filter update sets the estimate to the raw
  offset itself, without smoothing.
\<close>

theorem cold_start:
  "sample_count s = 0 \<Longrightarrow> ewma_offset_ns (update_ewma offset_ns s) = offset_ns"
  by (simp add: update_ewma_def)

theorem cold_start_witness:
  "sample_count clock_discipliner_ctor = 0
   \<and> ewma_offset_ns (update_ewma 5000000 clock_discipliner_ctor) = 5000000"
  using cold_start [of clock_discipliner_ctor 5000000]
  by (simp add: clock_discipliner_ctor_def)

subsection \<open>Smoothing\<close>

text \<open>
  Seven ticks in the first second after the epoch, where a fresh object makes no decision,
  from a source 1 ms ahead at the first tick and 2 ms ahead afterwards, and the same with
  a source behind. The estimate they leave is not a multiple of 5.
\<close>

lemma seven_ticks_ahead:
  "run_ticks
     [(\<lparr>now = \<lparr>tv_sec = 0, tv_nsec = 100000000\<rparr>,
          now_step = \<lparr>tv_sec = 0, tv_nsec = 100000000\<rparr>,
          settime_ok = True, adjtime_ok = True\<rparr>, 101),
       (\<lparr>now = \<lparr>tv_sec = 0, tv_nsec = 200000000\<rparr>,
          now_step = \<lparr>tv_sec = 0, tv_nsec = 200000000\<rparr>,
          settime_ok = True, adjtime_ok = True\<rparr>, 202),
       (\<lparr>now = \<lparr>tv_sec = 0, tv_nsec = 300000000\<rparr>,
          now_step = \<lparr>tv_sec = 0, tv_nsec = 300000000\<rparr>,
          settime_ok = True, adjtime_ok = True\<rparr>, 302),
       (\<lparr>now = \<lparr>tv_sec = 0, tv_nsec = 400000000\<rparr>,
          now_step = \<lparr>tv_sec = 0, tv_nsec = 400000000\<rparr>,
          settime_ok = True, adjtime_ok = True\<rparr>, 402),
       (\<lparr>now = \<lparr>tv_sec = 0, tv_nsec = 500000000\<rparr>,
          now_step = \<lparr>tv_sec = 0, tv_nsec = 500000000\<rparr>,
          settime_ok = True, adjtime_ok = True\<rparr>, 502),
       (\<lparr>now = \<lparr>tv_sec = 0, tv_nsec = 600000000\<rparr>,
          now_step = \<lparr>tv_sec = 0, tv_nsec = 600000000\<rparr>,
          settime_ok = True, adjtime_ok = True\<rparr>, 602),
       (\<lparr>now = \<lparr>tv_sec = 0, tv_nsec = 700000000\<rparr>,
          now_step = \<lparr>tv_sec = 0, tv_nsec = 700000000\<rparr>,
          settime_ok = True, adjtime_ok = True\<rparr>, 702)]
     clock_discipliner_ctor
   = \<lparr>ewma_offset_ns = 1737856, sample_count = 7, last_discipline_sec = 0\<rparr>"
  by (simp add: tick_eval dbl_eval)

lemma seven_ticks_behind:
  "run_ticks
     [(\<lparr>now = \<lparr>tv_sec = 0, tv_nsec = 100000000\<rparr>,
          now_step = \<lparr>tv_sec = 0, tv_nsec = 100000000\<rparr>,
          settime_ok = True, adjtime_ok = True\<rparr>, 99),
       (\<lparr>now = \<lparr>tv_sec = 0, tv_nsec = 200000000\<rparr>,
          now_step = \<lparr>tv_sec = 0, tv_nsec = 200000000\<rparr>,
          settime_ok = True, adjtime_ok = True\<rparr>, 198),
       (\<lparr>now = \<lparr>tv_sec = 0, tv_nsec = 300000000\<rparr>,
          now_step = \<lparr>tv_sec = 0, tv_nsec = 300000000\<rparr>,
          settime_ok = True, adjtime_ok = True\<rparr>, 298),
       (\<lparr>now = \<lparr>tv_sec = 0, tv_nsec = 400000000\<rparr>,
          now_step = \<lparr>tv_sec = 0, tv_nsec = 400000000\<rparr>,
          settime_ok = True, adjtime_ok = True\<rparr>, 398),
       (\<lparr>now = \<lparr>tv_sec = 0, tv_nsec = 500000000\<rparr>,
          now_step = \<lparr>tv_sec = 0, tv_nsec = 500000000\<rparr>,
          settime_ok = True, adjtime_ok = True\<rparr>, 498),
       (\<lparr>now = \<lparr>tv_sec = 0, tv_nsec = 600000000\<rparr>,
          now_step = \<lparr>tv_sec = 0, tv_nsec = 600000000\<rparr>,
          settime_ok = True, adjtime_ok = True\<rparr>, 598),
       (\<lparr>now = \<lparr>tv_sec = 0, tv_nsec = 700000000\<rparr>,
          now_step = \<lparr>tv_sec = 0, tv_nsec = 700000000\<rparr>,
          settime_ok = True, adjtime_ok = True\<rparr>, 698)]
     clock_discipliner_ctor
   = \<lparr>ewma_offset_ns = - 1737856, sample_count = 7, last_discipline_sec = 0\<rparr>"
  by (simp add: tick_eval dbl_eval)

text \<open>
  Claim C6, as stated: after a non-first sample the estimate equals \<open>0.8 * E0 + 0.2 * R\<close>
  within floating-point tolerance. The estimate is an \<^verbatim>\<open>int64_t\<close>: the cast discards the
  fraction of the sum. The eighth tick meets the estimate 1737856 ns with the raw offset
  2000000 ns; the update yields 1790284 ns, four fifths of a nanosecond below
  \<open>1790284.8\<close>.
\<close>

theorem smoothing_counterexample:
  "sample_count (run_ticks
     [(\<lparr>now = \<lparr>tv_sec = 0, tv_nsec = 100000000\<rparr>,
          now_step = \<lparr>tv_sec = 0, tv_nsec = 100000000\<rparr>,
          settime_ok = True, adjtime_ok = True\<rparr>, 101),
       (\<lparr>now = \<lparr>tv_sec = 0, tv_nsec = 200000000\<rparr>,
          now_step = \<lparr>tv_sec = 0, tv_nsec = 200000000\<rparr>,
          settime_ok = True, adjtime_ok = True\<rparr>, 202),
       (\<lparr>now = \<lparr>tv_sec = 0, tv_nsec = 300000000\<rparr>,
          now_step = \<lparr>tv_sec = 0, tv_nsec = 300000000\<rparr>,
          settime_ok = True, adjtime_ok = True\<rparr>, 302),
       (\<lparr>now = \<lparr>tv_sec = 0, tv_nsec = 400000000\<rparr>,
          now_step = \<lparr>tv_sec = 0, tv_nsec = 400000000\<rparr>,
          settime_ok = True, adjtime_ok = True\<rparr>, 402),
       (\<lparr>now = \<lparr>tv_sec = 0, tv_nsec = 500000000\<rparr>,
          now_step = \<lparr>tv_sec = 0, tv_nsec = 500000000\<rparr>,
          settime_ok = True, adjtime_ok = True\<rparr>, 502),
       (\<lparr>now = \<lparr>tv_sec = 0, tv_nsec = 600000000\<rparr>,
          now_step = \<lparr>tv_sec = 0, tv_nsec = 600000000\<rparr>,
          settime_ok = True, adjtime_ok = True\<rparr>, 602),
       (\<lparr>now = \<lparr>tv_sec = 0, tv_nsec = 700000000\<rparr>,
          now_step = \<lparr>tv_sec = 0, tv_nsec = 700000000\<rparr>,
          settime_ok = True, adjtime_ok = True\<rparr>, 702)]
     clock_discipliner_ctor) \<noteq> 0
   \<and> ewma_offset_ns (run_ticks
     [(\<lparr>now = \<lparr>tv_sec = 0, tv_nsec = 100000000\<rparr>,
          now_step = \<lparr>tv_sec = 0, tv_nsec = 100000000\<rparr>,
          settime_ok = True, adjtime_ok = True\<rparr>, 101),
       (\<lparr>now = \<lparr>tv_sec = 0, tv_nsec = 200000000\<rparr>,
          now_step = \<lparr>tv_sec = 0, tv_nsec = 200000000\<rparr>,
          settime_ok = True, adjtime_ok = True\<rparr>, 202),
       (\<lparr>now = \<lparr>tv_sec = 0, tv_nsec = 300000000\<rparr>,
          now_step = \<lparr>tv_sec = 0, tv_nsec = 300000000\<rparr>,
          settime_ok = True, adjtime_ok = True\<rparr>, 302),
       (\<lparr>now = \<lparr>tv_sec = 0, tv_nsec = 400000000\<rparr>,
          now_step = \<lparr>tv_sec = 0, tv_nsec = 400000000\<rparr>,
          settime_ok = True, adjtime_ok = True\<rparr>, 402),
       (\<lparr>now = \<lparr>tv_sec = 0, tv_nsec = 500000000\<rparr>,
          now_step = \<lparr>tv_sec = 0, tv_nsec = 500000000\<rparr>,
          settime_ok = True, adjtime_ok = True\<rparr>, 502),
       (\<lparr>now = \<lparr>tv_sec = 0, tv_nsec = 600000000\<rparr>,
          now_step = \<lparr>tv_sec = 0, tv_nsec = 600000000\<rparr>,
          settime_ok = True, adjtime_ok = True\<rparr>, 602),
       (\<lparr>now = \<lparr>tv_sec = 0, tv_nsec = 700000000\<rparr>,
          now_step = \<lparr>tv_sec = 0, tv_nsec = 700000000\<rparr>,
          settime_ok = True, adjtime_ok = True\<rparr>, 702)]
     clock_discipliner_ctor) = 1737856
   \<and> tick_offset_ns \<lparr>tv_sec = 0, tv_nsec = 800000000\<rparr> 802 = 2000000
   \<and> decision_secs
     [(\<lparr>now = \<lparr>tv_sec = 0, tv_nsec = 100000000\<rparr>,
          now_step = \<lparr>tv_sec = 0, tv_nsec = 100000000\<rparr>,
          settime_ok = True, adjtime_ok = True\<rparr>, 101),
       (\<lparr>now = \<lparr>tv_sec = 0, tv_nsec = 200000000\<rparr>,
          now_step = \<lparr>tv_sec = 0, tv_nsec = 200000000\<rparr>,
          settime_ok = True, adjtime_ok = True\<rparr>, 202),
       (\<lparr>now = \<lparr>tv_sec = 0, tv_nsec = 300000000\<rparr>,
          now_step = \<lparr>tv_sec = 0, tv_nsec = 300000000\<rparr>,
          settime_ok = True, adjtime_ok = True\<rparr>, 302),
       (\<lparr>now = \<lparr>tv_sec = 0, tv_nsec = 400000000\<rparr>,
          now_step = \<lparr>tv_sec = 0, tv_nsec = 400000000\<rparr>,
          settime_ok = True, adjtime_ok = True\<rparr>, 402),
       (\<lparr>now = \<lparr>tv_sec = 0, tv_nsec = 500000000\<rparr>,
          now_step = \<lparr>tv_sec = 0, tv_nsec = 500000000\<rparr>,
          settime_ok = True, adjtime_ok = True\<rparr>, 502),
       (\<lparr>now = \<lparr>tv_sec = 0, tv_nsec = 600000000\<rparr>,
          now_step = \<lparr>tv_sec = 0, tv_nsec = 600000000\<rparr>,
          settime_ok = True, adjtime_ok = True\<rparr>, 602),
       (\<lparr>now = \<lparr>tv_sec = 0, tv_nsec = 700000000\<rparr>,
          now_step = \<lparr>tv_sec = 0, tv_nsec = 700000000\<rparr>,
          settime_ok = True, adjtime_ok = True\<rparr>, 702),
       (\<lparr>now = \<lparr>tv_sec = 0, tv_nsec = 800000000\<rparr>,
          now_step = \<lparr>tv_sec = 0, tv_nsec = 800000000\<rparr>,
          settime_ok = True, adjtime_ok = True\<rparr>, 802)]
     clock_discipliner_ctor = []
   \<and> ewma_offset_ns (run_ticks
     [(\<lparr>now = \<lparr>tv_sec = 0, tv_nsec = 100000000\<rparr>,
          now_step = \<lparr>tv_sec = 0, tv_nsec = 100000000\<rparr>,
          settime_ok = True, adjtime_ok = True\<rparr>, 101),
       (\<lparr>now = \<lparr>tv_sec = 0, tv_nsec = 200000000\<rparr>,
          now_step = \<lparr>tv_sec = 0, tv_nsec = 200000000\<rparr>,
          settime_ok = True, adjtime_ok = True\<rparr>, 202),
       (\<lparr>now = \<lparr>tv_sec = 0, tv_nsec = 300000000\<rparr>,
          now_step = \<lparr>tv_sec = 0, tv_nsec = 300000000\<rparr>,
          settime_ok = True, adjtime_ok = True\<rparr>, 302),
       (\<lparr>now = \<lparr>tv_sec = 0, tv_nsec = 400000000\<rparr>,
          now_step = \<lparr>tv_sec = 0, tv_nsec = 400000000\<rparr>,
          settime_ok = True, adjtime_ok = True\<rparr>, 402),
       (\<lparr>now = \<lparr>tv_sec = 0, tv_nsec = 500000000\<rparr>,
          now_step = \<lparr>tv_sec = 0, tv_nsec = 500000000\<rparr>,
          settime_ok = True, adjtime_ok = True\<rparr>, 502),
       (\<lparr>now = \<lparr>tv_sec = 0, tv_nsec = 600000000\<rparr>,
          now_step = \<lparr>tv_sec = 0, tv_nsec = 600000000\<rparr>,
          settime_ok = True, adjtime_ok = True\<rparr>, 602),
       (\<lparr>now = \<lparr>tv_sec = 0, tv_nsec = 700000000\<rparr>,
          now_step = \<lparr>tv_sec = 0, tv_nsec = 700000000\<rparr>,
          settime_ok = True, adjtime_ok = True\<rparr>, 702),
       (\<lparr>now = \<lparr>tv_sec = 0, tv_nsec = 800000000\<rparr>,
          now_step = \<lparr>tv_sec = 0, tv_nsec = 800000000\<rparr>,
          settime_ok = True, adjtime_ok = True\<rparr>, 802)]
     clock_discipliner_ctor) = 1790284
   \<and> \<bar>real_of_int (sint (ewma_offset_ns (run_ticks
     [(\<lparr>now = \<lparr>tv_sec = 0, tv_nsec = 100000000\<rparr>,
          now_step = \<lparr>tv_sec = 0, tv_nsec = 100000000\<rparr>,
          settime_ok = True, adjtime_ok = True\<rparr>, 101),
       (\<lparr>now = \<lparr>tv_sec = 0, tv_nsec = 200000000\<rparr>,
          now_step = \<lparr>tv_sec = 0, tv_nsec = 200000000\<rparr>,
          settime_ok = True, adjtime_ok = True\<rparr>, 202),
       (\<lparr>now = \<lparr>tv_sec = 0, tv_nsec = 300000000\<rparr>,
          now_step = \<lparr>tv_sec = 0, tv_nsec = 300000000\<rparr>,
          settime_ok = True, adjtime_ok = True\<rparr>, 302),
       (\<lparr>now = \<lparr>tv_sec = 0, tv_nsec = 400000000\<rparr>,
          now_step = \<lparr>tv_sec = 0, tv_nsec = 400000000\<rparr>,
          settime_ok = True, adjtime_ok = True\<rparr>, 402),
       (\<lparr>now = \<lparr>tv_sec = 0, tv_nsec = 500000000\<rparr>,
          now_step = \<lparr>tv_sec = 0, tv_nsec = 500000000\<rparr>,
          settime_ok = True, adjtime_ok = True\<rparr>, 502),
       (\<lparr>now = \<lparr>tv_sec = 0, tv_nsec = 600000000\<rparr>,
          now_step = \<lparr>tv_sec = 0, tv_nsec = 600000000\<rparr>,
          settime_ok = True, adjtime_ok = True\<rparr>, 602),
       (\<lparr>now = \<lparr>tv_sec = 0, tv_nsec = 700000000\<rparr>,
          now_step = \<lparr>tv_sec = 0, tv_nsec = 700000000\<rparr>,
          settime_ok = True, adjtime_ok = True\<rparr>, 702),
       (\<lparr>now = \<lparr>tv_sec = 0, tv_nsec = 800000000\<rparr>,
          now_step = \<lparr>tv_sec = 0, tv_nsec = 800000000\<rparr>,
          settime_ok = True, adjtime_ok = True\<rparr>, 802)]
     clock_discipliner_ctor)))
       - (0.8 * real_of_int (sint (ewma_offset_ns (run_ticks
     [(\<lparr>now = \<lparr>tv_sec = 0, tv_nsec = 100000000\<rparr>,
          now_step = \<lparr>tv_sec = 0, tv_nsec = 100000000\<rparr>,
          settime_ok = True, adjtime_ok = True\<rparr>, 101),
       (\<lparr>now = \<lparr>tv_sec = 0, tv_nsec = 200000000\<rparr>,
          now_step = \<lparr>tv_sec = 0, tv_nsec = 200000000\<rparr>,
          settime_ok = True, adjtime_ok = True\<rparr>, 202),
       (\<lparr>now = \<lparr>tv_sec = 0, tv_nsec = 300000000\<rparr>,
          now_step = \<lparr>tv_sec = 0, tv_nsec = 300000000\<rparr>,
          settime_ok = True, adjtime_ok = True\<rparr>, 302),
       (\<lparr>now = \<lparr>tv_sec = 0, tv_nsec = 400000000\<rparr>,
          now_step = \<lparr>tv_sec = 0, tv_nsec = 400000000\<rparr>,
          settime_ok = True, adjtime_ok = True\<rparr>, 402),
       (\<lparr>now = \<lparr>tv_sec = 0, tv_nsec = 500000000\<rparr>,
          now_step = \<lparr>tv_sec = 0, tv_nsec = 500000000\<rparr>,
          settime_ok = True, adjtime_ok = True\<rparr>, 502),
       (\<lparr>now = \<lparr>tv_sec = 0, tv_nsec = 600000000\<rparr>,
          now_step = \<lparr>tv_sec = 0, tv_nsec = 600000000\<rparr>,
          settime_ok = True, adjtime_ok = True\<rparr>, 602),
       (\<lparr>now = \<lparr>tv_sec = 0, tv_nsec = 700000000\<rparr>,
          now_step = \<lparr>tv_sec = 0, tv_nsec = 700000000\<rparr>,
          settime_ok = True, adjtime_ok = True\<rparr>, 702)]
     clock_discipliner_ctor)))
          + 0.2 * real_of_int (sint (tick_offset_ns \<lparr>tv_sec = 0, tv_nsec = 800000000\<rparr> 802)))\<bar>
     = 4 / 5"
proof -
  have e8: "ewma_offset_ns (run_ticks
     [(\<lparr>now = \<lparr>tv_sec = 0, tv_nsec = 100000000\<rparr>,
          now_step = \<lparr>tv_sec = 0, tv_nsec = 100000000\<rparr>,
          settime_ok = True, adjtime_ok = True\<rparr>, 101),
       (\<lparr>now = \<lparr>tv_sec = 0, tv_nsec = 200000000\<rparr>,
          now_step = \<lparr>tv_sec = 0, tv_nsec = 200000000\<rparr>,
          settime_ok = True, adjtime_ok = True\<rparr>, 202),
       (\<lparr>now = \<lparr>tv_sec = 0, tv_nsec = 300000000\<rparr>,
          now_step = \<lparr>tv_sec = 0, tv_nsec = 300000000\<rparr>,
          settime_ok = True, adjtime_ok = True\<rparr>, 302),
       (\<lparr>now = \<lparr>tv_sec = 0, tv_nsec = 400000000\<rparr>,
          now_step = \<lparr>tv_sec = 0, tv_nsec = 400000000\<rparr>,
          settime_ok = True, adjtime_ok = True\<rparr>, 402),
       (\<lparr>now = \<lparr>tv_sec = 0, tv_nsec = 500000000\<rparr>,
          now_step = \<lparr>tv_sec = 0, tv_nsec = 500000000\<rparr>,
          settime_ok = True, adjtime_ok = True\<rparr>, 502),
       (\<lparr>now = \<lparr>tv_sec = 0, tv_nsec = 600000000\<rparr>,
          now_step = \<lparr>tv_sec = 0, tv_nsec = 600000000\<rparr>,
          settime_ok = True, adjtime_ok = True\<rparr>, 602),
       (\<lparr>now = \<lparr>tv_sec = 0, tv_nsec = 700000000\<rparr>,
          now_step = \<lparr>tv_sec = 0, tv_nsec = 700000000\<rparr>,
          settime_ok = True, adjtime_ok = True\<rparr>, 702),
       (\<lparr>now = \<lparr>tv_sec = 0, tv_nsec = 800000000\<rparr>,
          now_step = \<lparr>tv_sec = 0, tv_nsec = 800000000\<rparr>,
          settime_ok = True, adjtime_ok = True\<rparr>, 802)]
     clock_discipliner_ctor) = 1790284"
    by (simp add: tick_eval dbl_eval)
  have d8: "decision_secs
     [(\<lparr>now = \<lparr>tv_sec = 0, tv_nsec = 100000000\<rparr>,
          now_step = \<lparr>tv_sec = 0, tv_nsec = 100000000\<rparr>,
          settime_ok = True, adjtime_ok = True\<rparr>, 101),
       (\<lparr>now = \<lparr>tv_sec = 0, tv_nsec = 200000000\<rparr>,
          now_step = \<lparr>tv_sec = 0, tv_nsec = 200000000\<rparr>,
          settime_ok = True, adjtime_ok = True\<rparr>, 202),
       (\<lparr>now = \<lparr>tv_sec = 0, tv_nsec = 300000000\<rparr>,
          now_step = \<lparr>tv_sec = 0, tv_nsec = 300000000\<rparr>,
          settime_ok = True, adjtime_ok = True\<rparr>, 302),
       (\<lparr>now = \<lparr>tv_sec = 0, tv_nsec = 400000000\<rparr>,
          now_step = \<lparr>tv_sec = 0, tv_nsec = 400000000\<rparr>,
          settime_ok = True, adjtime_ok = True\<rparr>, 402),
       (\<lparr>now = \<lparr>tv_sec = 0, tv_nsec = 500000000\<rparr>,
          now_step = \<lparr>tv_sec = 0, tv_nsec = 500000000\<rparr>,
          settime_ok = True, adjtime_ok = True\<rparr>, 502),
       (\<lparr>now = \<lparr>tv_sec = 0, tv_nsec = 600000000\<rparr>,
          now_step = \<lparr>tv_sec = 0, tv_nsec = 600000000\<rparr>,
          settime_ok = True, adjtime_ok = True\<rparr>, 602),
       (\<lparr>now = \<lparr>tv_sec = 0, tv_nsec = 700000000\<rparr>,
          now_step = \<lparr>tv_sec = 0, tv_nsec = 700000000\<rparr>,
          settime_ok = True, adjtime_ok = True\<rparr>, 702),
       (\<lparr>now = \<lparr>tv_sec = 0, tv_nsec = 800000000\<rparr>,
          now_step = \<lparr>tv_sec = 0, tv_nsec = 800000000\<rparr>,
          settime_ok = True, adjtime_ok = True\<rparr>, 802)]
     clock_discipliner_ctor = []"
    by (simp add: decision_secs_Cons tick_last clock_discipliner_ctor_def)
  have o8: "tick_offset_ns \<lparr>tv_sec = 0, tv_nsec = 800000000\<rparr> 802 = 2000000"
    by (simp add: tick_offset_ns_def tick_offset_ms_def system_time_ms_def)
  show ?thesis
    unfolding e8 d8 o8 seven_ticks_ahead by simp
qed

text \<open>
  Claim C6, amended: for every non-first sample (\<open>sample_count\<close> not 0) with prior
  estimate \<open>E0\<close> and raw offset \<open>R\<close>, the update stores the value of
  \<^verbatim>\<open>(1.0 - ewma_alpha) * E0 + ewma_alpha * R\<close>, evaluated in \<^verbatim>\<open>double\<close> with
  \<open>\<alpha> = 0.2\<close>, truncated towards zero to whole nanoseconds (rounded down when it is not
  negative, up when it is negative), whenever that cast is defined. The \<^verbatim>\<open>double\<close> value
  differs from the exact \<open>0.8 * E0 + 0.2 * R\<close> by at most \<open>2 ^ - 51\<close> of
  \<open>0.8 * |E0| + 0.2 * |R|\<close>, and the new estimate by less than 1 ns more.
\<close>

theorem smoothing_truncated:
  assumes "sample_count s \<noteq> 0" and "cast_defined (ewma_blend (ewma_offset_ns s) offset_ns)"
  shows "sint (ewma_offset_ns (update_ewma offset_ns s))
           = (if 0 \<le> valof (ewma_blend (ewma_offset_ns s) offset_ns)
              then \<lfloor>valof (ewma_blend (ewma_offset_ns s) offset_ns)\<rfloor>
              else \<lceil>valof (ewma_blend (ewma_offset_ns s) offset_ns)\<rceil>)
       \<and> \<bar>valof (ewma_blend (ewma_offset_ns s) offset_ns)
           - (0.8 * real_of_int (sint (ewma_offset_ns s)) + 0.2 * real_of_int (sint offset_ns))\<bar>
         \<le> (0.8 * \<bar>real_of_int (sint (ewma_offset_ns s))\<bar>
                + 0.2 * \<bar>real_of_int (sint offset_ns)\<bar>) / 2 ^ 51
       \<and> \<bar>real_of_int (sint (ewma_offset_ns (update_ewma offset_ns s)))
           - (0.8 * real_of_int (sint (ewma_offset_ns s)) + 0.2 * real_of_int (sint offset_ns))\<bar>
         < 1 + (0.8 * \<bar>real_of_int (sint (ewma_offset_ns s))\<bar>
                + 0.2 * \<bar>real_of_int (sint offset_ns)\<bar>) / 2 ^ 51"
proof -
  define d where "d = ewma_blend (ewma_offset_ns s) offset_ns"
  define e where "e = real_of_int (sint (ewma_offset_ns s))"
  define r where "r = real_of_int (sint offset_ns)"
  define W where "W = (4 / 5 * \<bar>e\<bar> + 1 / 5 * \<bar>r\<bar>) / 2 ^ 51"
  have "ewma_offset_ns (update_ewma offset_ns s) = int64_of_double d"
    using assms(1) by (simp add: update_ewma_def d_def)
  then have t: "sint (ewma_offset_ns (update_ewma offset_ns s)) = dtrunc d"
    using assms(2) by (simp add: sint_int64_of_double d_def)
  have c1: "dtrunc d = (if 0 \<le> valof d then \<lfloor>valof d\<rfloor> else \<lceil>valof d\<rceil>)"
    by (rule dtrunc_toward_zero)
  have "\<bar>real_of_int (dtrunc d) - valof d\<bar> < 1" by (rule dtrunc_err)
  moreover have c2: "\<bar>valof d - (4 / 5 * e + 1 / 5 * r)\<bar> \<le> W"
    unfolding d_def e_def r_def W_def by (rule ewma_blend_err)
  ultimately have c3: "\<bar>real_of_int (dtrunc d) - (4 / 5 * e + 1 / 5 * r)\<bar> < 1 + W"
    by linarith
  have eq: "(8 / 10 :: real) = 4 / 5" "(2 / 10 :: real) = 1 / 5" by simp_all
  show ?thesis
    unfolding t eq using c1 c2 c3 unfolding d_def e_def r_def W_def by (intro conjI)
qed

theorem smoothing_truncated_witness:
  "sample_count \<lparr>ewma_offset_ns = - 1737856, sample_count = 7, last_discipline_sec = 0\<rparr> \<noteq> 0
   \<and> tick_offset_ns \<lparr>tv_sec = 0, tv_nsec = 800000000\<rparr> 798 = - 2000000
   \<and> cast_defined (ewma_blend (- 1737856) (- 2000000))
   \<and> ewma_blend (- 1737856) (- 2000000) = (- 7689214666525901, - 32)
   \<and> \<lfloor>valof (ewma_blend (- 1737856) (- 2000000))\<rfloor> = - 1790285
   \<and> \<lceil>valof (ewma_blend (- 1737856) (- 2000000))\<rceil> = - 1790284
   \<and> sint (ewma_offset_ns (update_ewma (- 2000000)
         \<lparr>ewma_offset_ns = - 1737856, sample_count = 7, last_discipline_sec = 0\<rparr>))
       = - 1790284
   \<and> ewma_offset_ns (run_ticks
     [(\<lparr>now = \<lparr>tv_sec = 0, tv_nsec = 100000000\<rparr>,
          now_step = \<lparr>tv_sec = 0, tv_nsec = 100000000\<rparr>,
          settime_ok = True, adjtime_ok = True\<rparr>, 99),
       (\<lparr>now = \<lparr>tv_sec = 0, tv_nsec = 200000000\<rparr>,
          now_step = \<lparr>tv_sec = 0, tv_nsec = 200000000\<rparr>,
          settime_ok = True, adjtime_ok = True\<rparr>, 198),
       (\<lparr>now = \<lparr>tv_sec = 0, tv_nsec = 300000000\<rparr>,
          now_step = \<lparr>tv_sec = 0, tv_nsec = 300000000\<rparr>,
          settime_ok = True, adjtime_ok = True\<rparr>, 298),
       (\<lparr>now = \<lparr>tv_sec = 0, tv_nsec = 400000000\<rparr>,
          now_step = \<lparr>tv_sec = 0, tv_nsec = 400000000\<rparr>,
          settime_ok = True, adjtime_ok = True\<rparr>, 398),
       (\<lparr>now = \<lparr>tv_sec = 0, tv_nsec = 500000000\<rparr>,
          now_step = \<lparr>tv_sec = 0, tv_nsec = 500000000\<rparr>,
          settime_ok = True, adjtime_ok = True\<rparr>, 498),
       (\<lparr>now = \<lparr>tv_sec = 0, tv_nsec = 600000000\<rparr>,
          now_step = \<lparr>tv_sec = 0, tv_nsec = 600000000\<rparr>,
          settime_ok = True, adjtime_ok = True\<rparr>, 598),
       (\<lparr>now = \<lparr>tv_sec = 0, tv_nsec = 700000000\<rparr>,
          now_step = \<lparr>tv_sec = 0, tv_nsec = 700000000\<rparr>,
          settime_ok = True, adjtime_ok = True\<rparr>, 698),
       (\<lparr>now = \<lparr>tv_sec = 0, tv_nsec = 800000000\<rparr>,
          now_step = \<lparr>tv_sec = 0, tv_nsec = 800000000\<rparr>,
          settime_ok = True, adjtime_ok = True\<rparr>, 798)]
     clock_discipliner_ctor) = - 1790284
   \<and> \<bar>valof (ewma_blend (- 1737856) (- 2000000))
        - (0.8 * real_of_int (sint (- 1737856 :: int64))
           + 0.2 * real_of_int (sint (- 2000000 :: int64)))\<bar>
      \<le> (0.8 * \<bar>real_of_int (sint (- 1737856 :: int64))\<bar>
           + 0.2 * \<bar>real_of_int (sint (- 2000000 :: int64))\<bar>) / 2 ^ 51"
proof -
  let ?s = "\<lparr>ewma_offset_ns = - 1737856, sample_count = 7, last_discipline_sec = 0\<rparr>"
  have h1: "sample_count ?s \<noteq> 0" by simp
  have b: "ewma_blend (- 1737856) (- 2000000) = (- 7689214666525901, - 32)"
    by (simp add: dbl_eval)
  have h2: "cast_defined (ewma_blend (ewma_offset_ns ?s) (- 2000000))"
    by (simp add: b) (simp add: cast_defined_def dtrunc_def)
  have v: "valof (- 7689214666525901, - 32) = - 7689214666525901 / 2 ^ 32"
    by (simp add: valof_def power_int_minus_divide)
  have fl: "\<lfloor>valof (ewma_blend (- 1737856) (- 2000000))\<rfloor> = - 1790285"
    unfolding b v by (simp add: floor_eq_iff)
  have ce: "\<lceil>valof (ewma_blend (- 1737856) (- 2000000))\<rceil> = - 1790284"
    unfolding b v by (simp add: ceiling_eq_iff)
  have o8: "tick_offset_ns \<lparr>tv_sec = 0, tv_nsec = 800000000\<rparr> 798 = - 2000000"
    by (simp add: tick_offset_ns_def tick_offset_ms_def system_time_ms_def)
  note th = smoothing_truncated [OF h1 h2]
  have neg: "\<not> 0 \<le> valof (ewma_blend (- 1737856) (- 2000000))"
    unfolding b v by simp
  have r: "sint (ewma_offset_ns (update_ewma (- 2000000) ?s)) = - 1790284"
    using th [THEN conjunct1] neg ce by simp
  then have "word_of_int (sint (ewma_offset_ns (update_ewma (- 2000000) ?s)))
      = (word_of_int (- 1790284) :: int64)"
    by simp
  then have r': "ewma_offset_ns (update_ewma (- 2000000) ?s) = - 1790284" by simp
  have step8: "snd (on_time_source_tick
      \<lparr>now = \<lparr>tv_sec = 0, tv_nsec = 800000000\<rparr>, now_step = \<lparr>tv_sec = 0, tv_nsec = 800000000\<rparr>,
         settime_ok = True, adjtime_ok = True\<rparr> 798 ?s)
      = update_ewma (- 2000000) ?s"
    using tick_skip [of "\<lparr>now = \<lparr>tv_sec = 0, tv_nsec = 800000000\<rparr>, now_step = \<lparr>tv_sec = 0, tv_nsec = 800000000\<rparr>,
         settime_ok = True, adjtime_ok = True\<rparr>" ?s 798]
    by (simp add: o8)
  have run8: "ewma_offset_ns (run_ticks
     [(\<lparr>now = \<lparr>tv_sec = 0, tv_nsec = 100000000\<rparr>,
          now_step = \<lparr>tv_sec = 0, tv_nsec = 100000000\<rparr>,
          settime_ok = True, adjtime_ok = True\<rparr>, 99),
       (\<lparr>now = \<lparr>tv_sec = 0, tv_nsec = 200000000\<rparr>,
          now_step = \<lparr>tv_sec = 0, tv_nsec = 200000000\<rparr>,
          settime_ok = True, adjtime_ok = True\<rparr>, 198),
       (\<lparr>now = \<lparr>tv_sec = 0, tv_nsec = 300000000\<rparr>,
          now_step = \<lparr>tv_sec = 0, tv_nsec = 300000000\<rparr>,
          settime_ok = True, adjtime_ok = True\<rparr>, 298),
       (\<lparr>now = \<lparr>tv_sec = 0, tv_nsec = 400000000\<rparr>,
          now_step = \<lparr>tv_sec = 0, tv_nsec = 400000000\<rparr>,
          settime_ok = True, adjtime_ok = True\<rparr>, 398),
       (\<lparr>now = \<lparr>tv_sec = 0, tv_nsec = 500000000\<rparr>,
          now_step = \<lparr>tv_sec = 0, tv_nsec = 500000000\<rparr>,
          settime_ok = True, adjtime_ok = True\<rparr>, 498),
       (\<lparr>now = \<lparr>tv_sec = 0, tv_nsec = 600000000\<rparr>,
          now_step = \<lparr>tv_sec = 0, tv_nsec = 600000000\<rparr>,
          settime_ok = True, adjtime_ok = True\<rparr>, 598),
       (\<lparr>now = \<lparr>tv_sec = 0, tv_nsec = 700000000\<rparr>,
          now_step = \<lparr>tv_sec = 0, tv_nsec = 700000000\<rparr>,
          settime_ok = True, adjtime_ok = True\<rparr>, 698),
       (\<lparr>now = \<lparr>tv_sec = 0, tv_nsec = 800000000\<rparr>,
          now_step = \<lparr>tv_sec = 0, tv_nsec = 800000000\<rparr>,
          settime_ok = True, adjtime_ok = True\<rparr>, 798)]
     clock_discipliner_ctor) = - 1790284"
    using seven_ticks_behind step8 r'
    by (simp add: run_ticks_append_one)
  have bd: "\<bar>valof (ewma_blend (- 1737856) (- 2000000))
        - (0.8 * real_of_int (sint (- 1737856 :: int64))
           + 0.2 * real_of_int (sint (- 2000000 :: int64)))\<bar>
      \<le> (0.8 * \<bar>real_of_int (sint (- 1737856 :: int64))\<bar>
           + 0.2 * \<bar>real_of_int (sint (- 2000000 :: int64))\<bar>) / 2 ^ 51"
    using th [THEN conjunct2, THEN conjunct1] by simp
  show ?thesis
    unfolding run8 o8
    using h1 h2 b fl ce r bd by simp
qed

subsection \<open>A constant input\<close>

text \<open>
  Claim C7, as stated: every \<^verbatim>\<open>int64_t\<close> value \<open>X\<close> fed repeatedly within one local
  second is reproduced exactly. A value with more than 53 significant bits is already
  changed by its conversion to \<^verbatim>\<open>double\<close>. With the local clock in its first second
  after the epoch (second 0, where the fresh object makes no decision) and a source
  1800000000001 ms ahead, both ticks have the raw offset 1800000000001000000 ns, and the
  estimate after the second tick is 64 ns below it.
\<close>

theorem constant_offset_counterexample:
  "tick_offset_ns \<lparr>tv_sec = 0, tv_nsec = 100000000\<rparr> 1800000000101 = 1800000000001000000
   \<and> tick_offset_ns \<lparr>tv_sec = 0, tv_nsec = 200000000\<rparr> 1800000000201 = 1800000000001000000
   \<and> decision_secs
        [(\<lparr>now = \<lparr>tv_sec = 0, tv_nsec = 100000000\<rparr>,
            now_step = \<lparr>tv_sec = 0, tv_nsec = 100000000\<rparr>,
            settime_ok = True, adjtime_ok = True\<rparr>, 1800000000101),
         (\<lparr>now = \<lparr>tv_sec = 0, tv_nsec = 200000000\<rparr>,
            now_step = \<lparr>tv_sec = 0, tv_nsec = 200000000\<rparr>,
            settime_ok = True, adjtime_ok = True\<rparr>, 1800000000201)] clock_discipliner_ctor = []
   \<and> ewma_offset_ns (run_ticks
        [(\<lparr>now = \<lparr>tv_sec = 0, tv_nsec = 100000000\<rparr>,
            now_step = \<lparr>tv_sec = 0, tv_nsec = 100000000\<rparr>,
            settime_ok = True, adjtime_ok = True\<rparr>, 1800000000101),
         (\<lparr>now = \<lparr>tv_sec = 0, tv_nsec = 200000000\<rparr>,
            now_step = \<lparr>tv_sec = 0, tv_nsec = 200000000\<rparr>,
            settime_ok = True, adjtime_ok = True\<rparr>, 1800000000201)] clock_discipliner_ctor)
      = 1800000000000999936"
  by (simp add: tick_eval dbl_eval decision_secs.simps)

text \<open>
  The update applied to an estimate and an equal raw offset of \<open>2 ^ 52 + 1\<close> already
  yields \<open>2 ^ 52 + 2\<close>: the bound of the amended claim cannot be raised.
\<close>

lemma fixed_point_limit:
  "ewma_offset_ns (update_ewma 4503599627370497
      \<lparr>ewma_offset_ns = 4503599627370497, sample_count = 1, last_discipline_sec = 0\<rparr>)
   = 4503599627370498"
  by (simp add: update_ewma_def dbl_eval)

text \<open>
  Claim C7, amended: for every constant raw offset \<open>X\<close> of magnitude at most
  \<open>2 ^ 52\<close> ns (about 52 days), fed across ticks that land in the local second equal to
  \<open>last_discipline_sec\<close> (so that no correction fires), to an object that has seen no
  sample or whose estimate is \<open>X\<close>, the filtered estimate after each tick equals \<open>X\<close>
  exactly.
\<close>

theorem constant_offset_fixed_point:
  assumes "\<bar>sint X\<bar> \<le> 2 ^ 52"
    and "sample_count s = 0 \<or> ewma_offset_ns s = X"
    and "\<forall>t \<in> set ticks. tv_sec (now (fst t)) = last_discipline_sec s
            \<and> tick_offset_ns (now (fst t)) (snd t) = X"
    and "0 < k" and "k \<le> length ticks"
  shows "ewma_offset_ns (run_ticks (take k ticks) s) = X \<and> decision_secs ticks s = []"
proof
  have "take k ticks \<noteq> []" using assms(4,5) by auto
  moreover have "\<forall>t \<in> set (take k ticks). tv_sec (now (fst t)) = last_discipline_sec s
            \<and> tick_offset_ns (now (fst t)) (snd t) = X"
    using assms(3) by (meson in_set_takeD)
  ultimately show "ewma_offset_ns (run_ticks (take k ticks) s) = X"
    using constant_offset_run [OF assms(1,2)] by blast
  show "decision_secs ticks s = []"
    using assms(3) by (intro constant_offset_no_decision) simp
qed

theorem constant_offset_fixed_point_witness:
  "\<bar>sint (5000000 :: int64)\<bar> \<le> 2 ^ 52
   \<and> sample_count clock_discipliner_ctor = 0
   \<and> tick_offset_ns \<lparr>tv_sec = 0, tv_nsec = 100000000\<rparr> 105 = 5000000
   \<and> tick_offset_ns \<lparr>tv_sec = 0, tv_nsec = 200000000\<rparr> 205 = 5000000
   \<and> ewma_offset_ns (run_ticks (take 2
        [(\<lparr>now = \<lparr>tv_sec = 0, tv_nsec = 100000000\<rparr>,
            now_step = \<lparr>tv_sec = 0, tv_nsec = 100000000\<rparr>,
            settime_ok = True, adjtime_ok = True\<rparr>, 105),
         (\<lparr>now = \<lparr>tv_sec = 0, tv_nsec = 200000000\<rparr>,
            now_step = \<lparr>tv_sec = 0, tv_nsec = 200000000\<rparr>,
            settime_ok = True, adjtime_ok = True\<rparr>, 205)]) clock_discipliner_ctor) = 5000000"
  using constant_offset_fixed_point [of 5000000 clock_discipliner_ctor
        "[(\<lparr>now = \<lparr>tv_sec = 0, tv_nsec = 100000000\<rparr>,
            now_step = \<lparr>tv_sec = 0, tv_nsec = 100000000\<rparr>,
            settime_ok = True, adjtime_ok = True\<rparr>, 105),
         (\<lparr>now = \<lparr>tv_sec = 0, tv_nsec = 200000000\<rparr>,
            now_step = \<lparr>tv_sec = 0, tv_nsec = 200000000\<rparr>,
            settime_ok = True, adjtime_ok = True\<rparr>, 205)]" 2]
  by (simp add: clock_discipliner_ctor_def tick_offset_ns_def tick_offset_ms_def system_time_ms_def)

subsection \<open>Ticks that overflow the conversion to nanoseconds\<close>

text \<open>
  Claim C8, as stated: a tick whose millisecond offset overflows the conversion to
  nanoseconds is rejected and leaves the state unchanged. The function has no check and
  returns nothing. For the tick below the product wraps to \<open>-1001000000\<close>, which becomes
  the estimate and is stepped at once; all three fields differ afterwards.
\<close>

theorem overflow_tick_counterexample:
  "ns_conversion_overflows \<lparr>tv_sec = 1, tv_nsec = 0\<rparr> 9223372036854775807
   \<and> on_time_source_tick
        \<lparr>now = \<lparr>tv_sec = 1, tv_nsec = 0\<rparr>, now_step = \<lparr>tv_sec = 1, tv_nsec = 0\<rparr>,
           settime_ok = True, adjtime_ok = True\<rparr> 9223372036854775807 clock_discipliner_ctor
      = ([Log_filtered (- 1001000000), Clock_settime \<lparr>tv_sec = 0, tv_nsec = - 1000000\<rparr>,
          Log_stepped (- 1001000000)],
         \<lparr>ewma_offset_ns = 0, sample_count = 1, last_discipline_sec = 1\<rparr>)
   \<and> \<lparr>ewma_offset_ns = 0, sample_count = 1, last_discipline_sec = 1\<rparr> \<noteq> clock_discipliner_ctor"
  by (simp add: tick_eval ns_conversion_overflows_def)

text \<open>
  Claim C8, amended: \<^verbatim>\<open>on_time_source_tick\<close> validates nothing and reports nothing to its
  caller. Every tick, whatever its timestamp, is folded into the filter: the sample count
  goes up by one, so no call leaves the state unchanged.
\<close>

theorem tick_never_rejected:
  "sample_count (snd (on_time_source_tick w time_source_ms s)) = sample_count s + 1
   \<and> snd (on_time_source_tick w time_source_ms s) \<noteq> s"
proof -
  let ?s1 = "update_ewma (tick_offset_ns (now w) time_source_ms) s"
  have "sample_count (snd (discipline_if_needed w c ?s1)) = sample_count ?s1" for c
  proof (cases "c = last_discipline_sec ?s1")
    case True
    then show ?thesis by (simp add: discipline_skip)
  next
    case False
    then show ?thesis
      by (cases "3 * 1000000 <s abs_offset_ns ?s1") (simp_all add: discipline_step discipline_slew)
  qed
  then have c: "sample_count (snd (on_time_source_tick w time_source_ms s)) = sample_count s + 1"
    by (simp add: on_time_source_tick_def)
  moreover have "snd (on_time_source_tick w time_source_ms s) \<noteq> s"
  proof
    assume "snd (on_time_source_tick w time_source_ms s) = s"
    with c have "sample_count s = sample_count s + 1" by simp
    then show False by simp
  qed
  ultimately show ?thesis by simp
qed

subsection \<open>The first call\<close>

text \<open>
  Claim C9: \<open>last_discipline_sec\<close> starts at 0, so the first call runs the discipline
  decision whenever the local-clock second is not 0. It prints the raw offset of that tick
  as the filtered estimate and issues a step or a slew; a raw offset above 3 ms in
  magnitude issues the step at once.
\<close>

theorem first_tick_disciplines:
  assumes "tv_sec (now w) \<noteq> 0"
  shows "\<exists>evs. fst (on_time_source_tick w time_source_ms clock_discipliner_ctor)
              = Log_filtered (tick_offset_ns (now w) time_source_ms) # evs
         \<and> ((\<exists>t. Clock_settime t \<in> set evs) \<or> (\<exists>u. Clock_adjtime u \<in> set evs))
         \<and> (3000000 < \<bar>sint (tick_offset_ns (now w) time_source_ms)\<bar>
              \<and> tick_offset_ns (now w) time_source_ms \<noteq> INT64_MIN
            \<longrightarrow> (\<exists>t. Clock_settime t \<in> set evs))"
proof -
  let ?x = "tick_offset_ns (now w) time_source_ms"
  let ?s1 = "update_ewma ?x clock_discipliner_ctor"
  have e: "ewma_offset_ns ?s1 = ?x"
    by (simp add: update_ewma_def clock_discipliner_ctor_def)
  have ne: "tv_sec (now w) \<noteq> last_discipline_sec ?s1"
    using assms by (simp add: clock_discipliner_ctor_def)
  show ?thesis
  proof (cases "3 * 1000000 <s abs_offset_ns ?s1")
    case True
    show ?thesis
      using discipline_step [OF ne True, of w] settime_in_step e
      by (simp add: on_time_source_tick_def)
  next
    case False
    have "\<not> (3000000 < \<bar>sint ?x\<bar> \<and> ?x \<noteq> INT64_MIN)"
      using False step_branch_iff [of ?s1] e by auto
    then show ?thesis
      using discipline_slew [OF ne False, of w] adjtime_in_slew e
      by (auto simp: on_time_source_tick_def)
  qed
qed

theorem first_tick_disciplines_witness:
  "tv_sec (now \<lparr>now = \<lparr>tv_sec = 100, tv_nsec = 0\<rparr>, now_step = \<lparr>tv_sec = 100, tv_nsec = 0\<rparr>,
         settime_ok = True, adjtime_ok = True\<rparr>) \<noteq> 0
   \<and> tick_offset_ns \<lparr>tv_sec = 100, tv_nsec = 0\<rparr> 103000 = 3000000000
   \<and> (\<exists>evs. fst (on_time_source_tick
         \<lparr>now = \<lparr>tv_sec = 100, tv_nsec = 0\<rparr>, now_step = \<lparr>tv_sec = 100, tv_nsec = 0\<rparr>,
            settime_ok = True, adjtime_ok = True\<rparr> 103000 clock_discipliner_ctor)
          = Log_filtered 3000000000 # evs \<and> (\<exists>t. Clock_settime t \<in> set evs))"
  using first_tick_disciplines [of
      "\<lparr>now = \<lparr>tv_sec = 100, tv_nsec = 0\<rparr>, now_step = \<lparr>tv_sec = 100, tv_nsec = 0\<rparr>,
         settime_ok = True, adjtime_ok = True\<rparr>" 103000]
  by (auto simp: tick_offset_ns_def tick_offset_ms_def system_time_ms_def INT64_MIN_def)

subsection \<open>The time written by a step\<close>



end
